theory Spec2Isabelle
  imports Complex_Main
begin

section \<open>Data model\<close>

text \<open>
  The C sources compute in \<open>double\<close>. Finite doubles are modelled as reals; rounding is
  not modelled. Where the control flow of the source depends on a value that is not a
  finite number (a quotient by zero, a power that overflows, the argument of
  \<open>sane_check\<close>), the value is a \<open>cdouble\<close>: a finite real, one of the two infinities,
  or not-a-number, and the arithmetic of the power-law fit is the arithmetic of doubles on
  these values, with overflow to an infinity and underflow to zero.
  Output through \<open>Log\<close> and \<open>Error\<close> is not part of the model.
\<close>

datatype cdouble = Fin real | PInf | MInf | NaN

text \<open>The quotient \<open>x / y\<close> of two finite doubles (the sign of a zero is not modelled).\<close>

definition cdiv :: "real \<Rightarrow> real \<Rightarrow> cdouble" where
  "cdiv x y =
     (if y \<noteq> 0 then Fin (x / y)
      else if x = 0 then NaN
      else if 0 < x then PInf else MInf)"

text \<open>The comparison \<open>x > c\<close> against a finite constant; false on not-a-number.\<close>

fun cd_gt :: "cdouble \<Rightarrow> real \<Rightarrow> bool" where
  "cd_gt (Fin x) c = (c < x)"
| "cd_gt PInf c = True"
| "cd_gt MInf c = False"
| "cd_gt NaN c = False"

text \<open>The comparison \<open>x < c\<close> against a finite constant; false on not-a-number.\<close>

fun cd_lt :: "cdouble \<Rightarrow> real \<Rightarrow> bool" where
  "cd_lt (Fin x) c = (x < c)"
| "cd_lt PInf c = False"
| "cd_lt MInf c = True"
| "cd_lt NaN c = False"

text \<open>Adding a finite constant.\<close>

fun cd_add :: "cdouble \<Rightarrow> real \<Rightarrow> cdouble" where
  "cd_add (Fin x) c = Fin (x + c)"
| "cd_add PInf c = PInf"
| "cd_add MInf c = MInf"
| "cd_add NaN c = NaN"

fun is_finite :: "cdouble \<Rightarrow> bool" where
  "is_finite (Fin x) = True"
| "is_finite PInf = False"
| "is_finite MInf = False"
| "is_finite NaN = False"

text \<open>
  The range of a double: an exact result of magnitude \<open>2^1024 - 2^970\<close> or more becomes
  an infinity, and one of magnitude \<open>2^-1075\<close> (half the smallest positive double) or
  less becomes zero.
\<close>

definition DBL_OVERFLOW :: real where
  "DBL_OVERFLOW = (2 - 1 / 2 ^ 53) * 2 ^ 1023"

definition DBL_UNDERFLOW :: real where
  "DBL_UNDERFLOW = 1 / 2 ^ 1075"

text \<open>The double that stands for the exact result \<open>r\<close> of an operation.\<close>

definition to_double :: "real \<Rightarrow> cdouble" where
  "to_double r =
     (if DBL_OVERFLOW \<le> r then PInf
      else if r \<le> - DBL_OVERFLOW then MInf
      else if \<bar>r\<bar> \<le> DBL_UNDERFLOW then Fin 0
      else Fin r)"

text \<open>The product of two doubles (the sign of a zero is not modelled).\<close>

fun cd_mul :: "cdouble \<Rightarrow> cdouble \<Rightarrow> cdouble" where
  "cd_mul (Fin x) (Fin y) = to_double (x * y)"
| "cd_mul (Fin x) PInf = (if x = 0 then NaN else if 0 < x then PInf else MInf)"
| "cd_mul (Fin x) MInf = (if x = 0 then NaN else if 0 < x then MInf else PInf)"
| "cd_mul PInf (Fin y) = (if y = 0 then NaN else if 0 < y then PInf else MInf)"
| "cd_mul MInf (Fin y) = (if y = 0 then NaN else if 0 < y then MInf else PInf)"
| "cd_mul PInf PInf = PInf"
| "cd_mul MInf MInf = PInf"
| "cd_mul PInf MInf = MInf"
| "cd_mul MInf PInf = MInf"
| "cd_mul NaN y = NaN"
| "cd_mul x NaN = NaN"

text \<open>The difference of two doubles; two infinities of one sign give not-a-number.\<close>

fun cd_sub :: "cdouble \<Rightarrow> cdouble \<Rightarrow> cdouble" where
  "cd_sub (Fin x) (Fin y) = to_double (x - y)"
| "cd_sub (Fin x) PInf = MInf"
| "cd_sub (Fin x) MInf = PInf"
| "cd_sub PInf (Fin y) = PInf"
| "cd_sub MInf (Fin y) = MInf"
| "cd_sub PInf PInf = NaN"
| "cd_sub MInf MInf = NaN"
| "cd_sub PInf MInf = PInf"
| "cd_sub MInf PInf = MInf"
| "cd_sub NaN y = NaN"
| "cd_sub x NaN = NaN"

text \<open>
  The quotient of two doubles (the sign of a zero is not modelled): a quotient by zero is
  an infinity, and zero by zero or an infinity by an infinity is not-a-number.
\<close>

fun cd_quot :: "cdouble \<Rightarrow> cdouble \<Rightarrow> cdouble" where
  "cd_quot (Fin x) (Fin y) =
     (if y \<noteq> 0 then to_double (x / y)
      else if x = 0 then NaN
      else if 0 < x then PInf else MInf)"
| "cd_quot (Fin x) PInf = Fin 0"
| "cd_quot (Fin x) MInf = Fin 0"
| "cd_quot PInf (Fin y) = (if 0 \<le> y then PInf else MInf)"
| "cd_quot MInf (Fin y) = (if 0 \<le> y then MInf else PInf)"
| "cd_quot PInf PInf = NaN"
| "cd_quot MInf MInf = NaN"
| "cd_quot PInf MInf = NaN"
| "cd_quot MInf PInf = NaN"
| "cd_quot NaN y = NaN"
| "cd_quot x NaN = NaN"

text \<open>
  \<open>pow(x, y)\<close> of the C library on two finite doubles. For a positive base it is the real
  power, brought into the range of a double. For the other bases the C standard gives:
  one for a zero exponent; for a zero base, zero for a positive exponent and an infinity
  for a negative one; for a negative base, the signed power for a whole exponent and
  not-a-number otherwise.
\<close>

definition cpow :: "real \<Rightarrow> real \<Rightarrow> cdouble" where
  "cpow x y =
     (if 0 < x then to_double (x powr y)
      else if y = 0 then Fin 1
      else if x = 0 then (if 0 < y then Fin 0 else PInf)
      else if y \<in> \<int> then
             (if even \<lfloor>y\<rfloor> then to_double (\<bar>x\<bar> powr y) else to_double (- (\<bar>x\<bar> powr y)))
      else NaN)"

text \<open>The test \<open>x * y > 0.0\<close> on two doubles; false as soon as the product is not a number.\<close>

definition cd_prod_pos :: "cdouble \<Rightarrow> cdouble \<Rightarrow> bool" where
  "cd_prod_pos x y = cd_gt (cd_mul x y) 0"

text \<open>
  Modelled from the spec: \<open>sane_check\<close> is not in the sources given; the
  specification says that it returns true iff its argument is non-finite or otherwise
  unusable. The model is the test for a non-finite value.
\<close>

definition sane_check :: "cdouble \<Rightarrow> bool" where
  "sane_check x = (\<not> is_finite x)"

text \<open>
  The plasma cell (\<open>PlasmaPtr\<close>), with the fields that \<open>ionization.c\<close> reads or
  writes. The per-band arrays are indexed by the band number.
\<close>

record plasma =
  t_e :: real
  t_e_old :: real
  t_r :: real
  t_r_old :: real
  dt_e :: real
  dt_e_old :: real
  gain :: real
  heat_tot :: real
  heat_lines :: real
  heat_lines_macro :: real
  heat_photo :: real
  heat_photo_macro :: real
  lum_rad :: real
  lum_rad_old :: real
  lum_adiabatic :: real
  lum_dr :: real
  lum_comp :: real
  ave_freq :: real
  ne :: real
  xj :: "nat \<Rightarrow> real"
  xave_freq :: "nat \<Rightarrow> real"
  nxtot :: "nat \<Rightarrow> int"
  sim_alpha :: "nat \<Rightarrow> cdouble"
  sim_w :: "nat \<Rightarrow> cdouble"
  converge_t_r :: cdouble
  converge_t_e :: cdouble
  converge_hc :: cdouble
  trcheck :: int
  techeck :: int
  hccheck :: int
  converge_whole :: int
  converging :: int

section \<open>The convergence monitor\<close>

text \<open>
  \<open>convergence\<close> (ionization.c, lines 276-325): returns \<open>whole_check\<close> and the
  cell. No field that the function reads has been written earlier in the same call, except
  \<open>gain\<close>, which is multiplied and then clamped; so each new field is computed from the
  cell as it was on entry and all of them are stored at the end.
\<close>

definition convergence :: "plasma \<Rightarrow> int \<times> plasma" where
  "convergence xplasma =
    (let epsilon = 0.05;
         c_t_r = cdiv \<bar>t_r_old xplasma - t_r xplasma\<bar> (t_r_old xplasma + t_r xplasma);
         tr = (if cd_gt c_t_r epsilon then 1 else 0);
         c_t_e = cdiv \<bar>t_e_old xplasma - t_e xplasma\<bar> (t_e_old xplasma + t_e xplasma);
         te = (if cd_gt c_t_e epsilon then 1 else 0);
         c_hc = cdiv \<bar>heat_tot xplasma - (lum_rad xplasma + lum_adiabatic xplasma)\<bar>
                     (heat_tot xplasma + lum_rad xplasma + lum_adiabatic xplasma);
         hc = (if cd_gt c_hc epsilon then 1 else 0);
         whole_check = tr + te + hc;
         cvg = (if dt_e_old xplasma * dt_e xplasma < 0
                   \<and> \<bar>dt_e xplasma\<bar> > \<bar>dt_e_old xplasma\<bar> then 1 else 0);
         g = (if cvg = 1
              then (if gain xplasma * 0.7 < 0.1 then 0.1 else gain xplasma * 0.7)
              else (if gain xplasma * 1.1 > 0.8 then 0.8 else gain xplasma * 1.1))
     in (whole_check,
         xplasma\<lparr>converge_t_r := c_t_r, trcheck := tr,
                  converge_t_e := c_t_e, techeck := te,
                  converge_hc := c_hc, hccheck := hc,
                  converge_whole := whole_check, converging := cvg, gain := g\<rparr>))"

text \<open>
  \<open>check_convergence\<close> (ionization.c, lines 355-392). The counters \<open>ntr\<close>, \<open>nte\<close>
  and \<open>nhc\<close> are declared without an initial value and the only assignment before the
  loop is \<open>nconverge = nconverging = ntot = 0\<close>; the values they hold on entry are the
  arguments \<open>ntr0\<close>, \<open>nte0\<close>, \<open>nhc0\<close> of the model. The array \<open>plasmamain\<close> is the
  list of its first \<open>NPLASMA\<close> cells. The result holds the numbers that are logged and
  the value returned.
\<close>

record convergence_report =
  nconverge :: int
  nconverging :: int
  ntot :: int
  ntr :: int
  nte :: int
  nhc :: int
  xconverge :: cdouble
  xconverging :: cdouble
  returned :: int

definition count_cell :: "convergence_report \<Rightarrow> plasma \<Rightarrow> convergence_report" where
  "count_cell c p =
     c\<lparr>ntot := ntot c + 1,
       nconverge := (if converge_whole p = 0 then nconverge c + 1 else nconverge c),
       ntr := (if trcheck p = 0 then ntr c + 1 else ntr c),
       nte := (if techeck p = 0 then nte c + 1 else nte c),
       nhc := (if hccheck p = 0 then nhc c + 1 else nhc c),
       nconverging := (if converging p = 0 then nconverging c + 1 else nconverging c)\<rparr>"

definition check_convergence :: "int \<Rightarrow> int \<Rightarrow> int \<Rightarrow> plasma list \<Rightarrow> convergence_report" where
  "check_convergence ntr0 nte0 nhc0 plasmamain =
    (let c0 = \<lparr>nconverge = 0, nconverging = 0, ntot = 0, ntr = ntr0, nte = nte0, nhc = nhc0,
               xconverge = NaN, xconverging = NaN, returned = 0\<rparr>;
         c1 = foldl count_cell c0 plasmamain
     in c1\<lparr>xconverge := cdiv (real_of_int (nconverge c1)) (real_of_int (ntot c1)),
           xconverging := cdiv (real_of_int (nconverging c1)) (real_of_int (ntot c1)),
           returned := 0\<rparr>)"

section \<open>The routines called from outside this file\<close>

text \<open>
  \<open>ionization.c\<close> calls physics routines and a root finder that are defined in other
  files. They are the fields of the record \<open>physics\<close>, and every definition below takes
  such a record as its first argument. A routine that only computes a number from the cell
  is a function of the cell; a routine that updates the cell returns the new cell. The
  cooling routines take the wind cell \<open>&wmain[xxxplasma->nwind]\<close>, through which they
  read the plasma cell, so in the model they take the plasma cell; \<open>compute_dr_coeffs\<close>
  prepares tables that only \<open>total_dr\<close> reads and is part of \<open>total_dr\<close>.

  \<open>zbrent\<close> is called twice. With \<open>zero_emit\<close>, every evaluation of the function
  changes the cell, so the solver takes the cell and returns it with the root
  (\<open>zbrent_te\<close>). With \<open>sim_alpha_func\<close>, the function reads only the three globals set
  just before and the solver is a function of its arguments (\<open>zbrent_alpha\<close>).
\<close>

record physics =
  nebular_concentrations :: "plasma \<Rightarrow> int \<Rightarrow> int \<times> plasma"
  fix_concentrations :: "plasma \<Rightarrow> int \<Rightarrow> int \<times> plasma"
  macro_bb_heating :: "plasma \<Rightarrow> real \<Rightarrow> real"
  macro_bf_heating :: "plasma \<Rightarrow> real \<Rightarrow> real"
  adiabatic_cooling :: "plasma \<Rightarrow> real \<Rightarrow> real"
  total_dr :: "plasma \<Rightarrow> real \<Rightarrow> real"
  total_comp :: "plasma \<Rightarrow> real \<Rightarrow> real"
  total_emission :: "plasma \<Rightarrow> real \<Rightarrow> real \<Rightarrow> real"
  auger_ionization :: "plasma \<Rightarrow> plasma"
  zbrent_te :: "(real \<Rightarrow> plasma \<Rightarrow> real \<times> plasma) \<Rightarrow> real \<Rightarrow> real \<Rightarrow> real
                  \<Rightarrow> plasma \<Rightarrow> real \<times> plasma"
  zbrent_alpha :: "(cdouble \<Rightarrow> cdouble) \<Rightarrow> cdouble \<Rightarrow> cdouble \<Rightarrow> real \<Rightarrow> cdouble"
  VERY_BIG :: real

text \<open>The globals that \<open>ion_abundances\<close> reads: \<open>geo.auger_ionization\<close>, the band table.\<close>

record globals =
  geo_auger_ionization :: int
  xband_f1 :: "nat \<Rightarrow> real"
  xband_f2 :: "nat \<Rightarrow> real"
  xband_nbands :: int
  xfreq :: "nat \<Rightarrow> real"
  nxfreq :: int

section \<open>The temperature solver\<close>

text \<open>
  The five statements that replace the macro-atom line heating by its value at the
  temperature \<open>t\<close> (ionization.c, lines 577-581 and 634-638), and the five for the
  photoionization heating (lines 583-587 and 640-644).
\<close>

definition reset_heat_lines_macro :: "physics \<Rightarrow> plasma \<Rightarrow> real \<Rightarrow> plasma" where
  "reset_heat_lines_macro env x t =
    (let a = x\<lparr>heat_tot := heat_tot x - heat_lines_macro x,
                heat_lines := heat_lines x - heat_lines_macro x\<rparr>;
         m = macro_bb_heating env a t
     in a\<lparr>heat_lines_macro := m, heat_tot := heat_tot a + m, heat_lines := heat_lines a + m\<rparr>)"

definition reset_heat_photo_macro :: "physics \<Rightarrow> plasma \<Rightarrow> real \<Rightarrow> plasma" where
  "reset_heat_photo_macro env x t =
    (let a = x\<lparr>heat_tot := heat_tot x - heat_photo_macro x,
                heat_photo := heat_photo x - heat_photo_macro x\<rparr>;
         m = macro_bf_heating env a t
     in a\<lparr>heat_photo_macro := m, heat_tot := heat_tot a + m, heat_photo := heat_photo a + m\<rparr>)"

text \<open>The cooling terms stored by \<open>zero_emit\<close> (lines 654-667), one after the other.\<close>

definition set_cooling :: "physics \<Rightarrow> plasma \<Rightarrow> real \<Rightarrow> plasma" where
  "set_cooling env x t =
    (let a = x\<lparr>lum_adiabatic := adiabatic_cooling env x t\<rparr>;
         b = a\<lparr>lum_dr := total_dr env a t\<rparr>
     in b\<lparr>lum_comp := total_comp env b t\<rparr>)"

text \<open>
  \<open>zero_emit\<close> (lines 599-675) works on the cell that the global \<open>xxxplasma\<close> points
  to; it returns the difference between heating and cooling, and the cell as it leaves it.
\<close>

definition zero_emit :: "physics \<Rightarrow> real \<Rightarrow> plasma \<Rightarrow> real \<times> plasma" where
  "zero_emit env t xxxplasma =
    (let x1 = xxxplasma\<lparr>t_e := t\<rparr>;
         x2 = reset_heat_lines_macro env x1 t;
         x3 = reset_heat_photo_macro env x2 t;
         x4 = set_cooling env x3 t;
         difference = heat_tot x4 - lum_adiabatic x4 - lum_dr x4 - lum_comp x4
                      - total_emission env x4 0 (VERY_BIG env)
     in (difference, x4))"

text \<open>
  The choice of the temperature in \<open>calc_te\<close> (lines 559-568), from the two values
  \<open>z1\<close>, \<open>z2\<close> and the cell after the two evaluations.
\<close>

definition choose_te :: "physics \<Rightarrow> real \<Rightarrow> real \<Rightarrow> real \<Rightarrow> real \<Rightarrow> plasma \<Rightarrow> plasma" where
  "choose_te env tmin tmax z1 z2 x =
    (if z1 * z2 < 0
     then (case zbrent_te env (zero_emit env) tmin tmax 50 x of (tnew, x') \<Rightarrow> x'\<lparr>t_e := tnew\<rparr>)
     else if \<bar>z1\<bar> < \<bar>z2\<bar> then x\<lparr>t_e := tmin\<rparr>
     else x\<lparr>t_e := tmax\<rparr>)"

text \<open>\<open>calc_te\<close> (lines 532-593): returns the temperature and the cell.\<close>

definition calc_te :: "physics \<Rightarrow> plasma \<Rightarrow> real \<Rightarrow> real \<Rightarrow> real \<times> plasma" where
  "calc_te env xplasma tmin tmax =
    (case zero_emit env tmin (xplasma\<lparr>t_e := tmin\<rparr>) of (z1, x1) \<Rightarrow>
     case zero_emit env tmax (x1\<lparr>t_e := tmax\<rparr>) of (z2, x2) \<Rightarrow>
       (let x3 = choose_te env tmin tmax z1 z2 x2;
            x4 = reset_heat_lines_macro env x3 (t_e x3);
            x5 = reset_heat_photo_macro env x4 (t_e x4)
        in (t_e x5, x5)))"

section \<open>The ionization update\<close>

text \<open>The calls of \<open>exit\<close>: the process ends and nothing is returned.\<close>

datatype fatal = Unknown_mode | One_shot_mode | Small_t_r

text \<open>
  \<open>one_shot\<close> (lines 425-495); \<open>one_shot_densities\<close> is its second half (lines
  469-494), entered with the translated mode. The status of \<open>nebular_concentrations\<close>
  and the range test on \<open>ne\<close> only select messages; the value returned is the constant
  of line 494.
\<close>

definition one_shot_densities :: "physics \<Rightarrow> plasma \<Rightarrow> int \<Rightarrow> fatal + int \<times> plasma" where
  "one_shot_densities env xplasma mode =
    (if t_r xplasma > 10
     then (case nebular_concentrations env xplasma mode of (status, x) \<Rightarrow> Inr (0, x))
     else Inl Small_t_r)"

definition one_shot :: "physics \<Rightarrow> plasma \<Rightarrow> int \<Rightarrow> fatal + int \<times> plasma" where
  "one_shot env xplasma mode =
    (let gain0 = gain xplasma;
         te_old = t_e xplasma
     in case calc_te env xplasma (0.7 * te_old) (1.3 * te_old) of (te_new, x1) \<Rightarrow>
        (let x2 = x1\<lparr>t_e := (1 - gain0) * te_old + gain0 * te_new\<rparr>
         in if mode = 3 then one_shot_densities env x2 2
            else if mode \<le> 1 \<or> mode \<ge> 6 then Inl One_shot_mode
            else one_shot_densities env x2 mode))"

section \<open>The power-law fit of one band\<close>

text \<open>
  \<open>sim_alpha_func\<close> (lines 677-686). The globals \<open>sim_numin\<close>, \<open>sim_numax\<close> and
  \<open>sim_meanfreq\<close> that it reads are its first three arguments. Every operation of the
  source is the operation on doubles: the four powers overflow to an infinity, the
  difference of two infinities and the quotient of two infinities or of two zeros are
  not-a-number. So \<open>alpha = -1\<close> and \<open>alpha = -2\<close> give not-a-number, and so does every
  \<open>alpha\<close> at which a band edge overflows in both the numerator and the denominator. For
  an infinite \<open>alpha\<close> the first quotient is already one of two infinities, hence not a
  number.
\<close>

fun sim_alpha_func :: "real \<Rightarrow> real \<Rightarrow> real \<Rightarrow> cdouble \<Rightarrow> cdouble" where
  "sim_alpha_func sim_numin sim_numax sim_meanfreq (Fin alpha) =
     cd_sub
       (cd_mul (cd_quot (Fin (alpha + 1)) (Fin (alpha + 2)))
               (cd_quot (cd_sub (cpow sim_numax (alpha + 2)) (cpow sim_numin (alpha + 2)))
                        (cd_sub (cpow sim_numax (alpha + 1)) (cpow sim_numin (alpha + 1)))))
       (Fin sim_meanfreq)"
| "sim_alpha_func sim_numin sim_numax sim_meanfreq PInf = NaN"
| "sim_alpha_func sim_numin sim_numax sim_meanfreq MInf = NaN"
| "sim_alpha_func sim_numin sim_numax sim_meanfreq NaN = NaN"

text \<open>
  The loop of lines 153-157, on the pair \<open>(alphamin, alphamax)\<close>. The source gives no
  bound on the number of its iterations, so its result is an option: \<open>None\<close> would be a
  loop that never ends.
\<close>

partial_function (option) widen_bracket ::
  "(cdouble \<Rightarrow> cdouble) \<Rightarrow> cdouble \<times> cdouble \<Rightarrow> (cdouble \<times> cdouble) option" where
  "widen_bracket g ab =
     (if cd_prod_pos (g (fst ab)) (g (snd ab))
      then widen_bracket g (cd_add (fst ab) (- 1), cd_add (snd ab) 1)
      else Some ab)"

text \<open>The pair \<open>(alphamin, alphamax)\<close> after \<open>k\<close> passes of the loop that widens it.\<close>

definition widened :: "cdouble \<times> cdouble \<Rightarrow> nat \<Rightarrow> cdouble \<times> cdouble" where
  "widened ab k = (cd_add (fst ab) (- real k), cd_add (snd ab) (real k))"

text \<open>
  Modelled from the spec: \<open>sim_w\<close> is not in the sources given (it is named
  \<open>sim_w_func\<close> here because the cell has a field \<open>sim_w\<close>). The specification says that
  the weight is a closed-form normalisation of \<open>4 pi j\<close> over \<open>[numin, numax]\<close> with the
  fitted slope, and the comment at line 169 that the volume and the time step passed are
  one. The model is the normalisation of a power law: the energy per volume, time and
  \<open>4 pi\<close>, times \<open>alpha + 1\<close>, over the difference of the powers \<open>alpha + 1\<close> of the two
  band edges, in the arithmetic of doubles.
\<close>

definition sim_w_func :: "real \<Rightarrow> real \<Rightarrow> real \<Rightarrow> cdouble \<Rightarrow> real \<Rightarrow> real \<Rightarrow> cdouble" where
  "sim_w_func en1 v dt alpha1 numin numax =
     (case alpha1 of
        Fin a \<Rightarrow> cd_quot (cd_mul (cd_quot (Fin en1) (Fin (4 * pi * v * dt))) (Fin (a + 1)))
                         (cd_sub (cpow numax (a + 1)) (cpow numin (a + 1)))
      | PInf \<Rightarrow> NaN
      | MInf \<Rightarrow> NaN
      | NaN \<Rightarrow> NaN)"

text \<open>
  The head of the loop body (lines 128-145): the band edges, the mean frequency and \<open>j\<close>
  for band \<open>b\<close>, and the cell, whose weight is set to zero when the band has no photons.
\<close>

definition band_inputs :: "globals \<Rightarrow> plasma \<Rightarrow> nat \<Rightarrow> plasma \<times> real \<times> real \<times> real \<times> real" where
  "band_inputs g xplasma b =
    (if nxtot xplasma b = 0
     then (xplasma\<lparr>sim_w := (sim_w xplasma)(b := Fin 0)\<rparr>,
           xband_f1 g 0, xband_f2 g (nat (xband_nbands g - 1)), ave_freq xplasma, 0)
     else (xplasma, xfreq g b, xfreq g (b + 1), xave_freq xplasma b, xj xplasma b))"

text \<open>The two clamps of lines 164-165.\<close>

definition clamp_alpha :: "cdouble \<Rightarrow> cdouble" where
  "clamp_alpha alphatemp =
    (let a = (if cd_gt alphatemp 3 then Fin 3 else alphatemp)
     in if cd_lt a (- 3) then Fin (- 3) else a)"

text \<open>
  The candidate slope and weight for band \<open>b\<close> (lines 150-170), given the inputs of the
  band; \<open>None\<close> would be a widening loop that does not end.
\<close>

definition fit_candidates ::
  "physics \<Rightarrow> cdouble \<Rightarrow> real \<Rightarrow> real \<Rightarrow> real \<Rightarrow> real \<Rightarrow> (cdouble \<times> cdouble) option" where
  "fit_candidates env alpha0 sim_numin sim_numax sim_meanfreq jband =
    (case widen_bracket (sim_alpha_func sim_numin sim_numax sim_meanfreq)
            (cd_add alpha0 (- 0.1), cd_add alpha0 0.1) of
       None \<Rightarrow> None
     | Some (alphamin, alphamax) \<Rightarrow>
         (let alphatemp = clamp_alpha
                (zbrent_alpha env (sim_alpha_func sim_numin sim_numax sim_meanfreq)
                   alphamin alphamax 0.00001);
              sim_w_temp = sim_w_func (jband * 4 * pi) 1 1 alphatemp sim_numin sim_numax
          in Some (alphatemp, sim_w_temp)))"

text \<open>One pass of the loop body (lines 128-181) for band \<open>b\<close>.\<close>

definition fit_band :: "physics \<Rightarrow> globals \<Rightarrow> plasma \<Rightarrow> nat \<Rightarrow> plasma option" where
  "fit_band env g xplasma b =
    (case band_inputs g xplasma b of (x1, sim_numin, sim_numax, sim_meanfreq, jband) \<Rightarrow>
      (case fit_candidates env (sim_alpha x1 b) sim_numin sim_numax sim_meanfreq jband of
         None \<Rightarrow> None
       | Some (alphatemp, sim_w_temp) \<Rightarrow>
           Some (if sane_check sim_w_temp then x1
                 else x1\<lparr>sim_alpha := (sim_alpha x1)(b := alphatemp),
                         sim_w := (sim_w x1)(b := sim_w_temp)\<rparr>)))"

text \<open>The loop over the bands \<open>0, ..., nxfreq - 1\<close> (line 125).\<close>

fun fit_bands :: "physics \<Rightarrow> globals \<Rightarrow> plasma \<Rightarrow> nat list \<Rightarrow> plasma option" where
  "fit_bands env g xplasma [] = Some xplasma"
| "fit_bands env g xplasma (b # bs) =
     (case fit_band env g xplasma b of
        None \<Rightarrow> None
      | Some x \<Rightarrow> fit_bands env g x bs)"

section \<open>The steering routine\<close>

text \<open>The five assignments under the comment "Shift values to old" (lines 96-100, 196-200).\<close>

definition shift_to_old :: "plasma \<Rightarrow> plasma" where
  "shift_to_old xplasma =
    (let a = xplasma\<lparr>dt_e_old := dt_e xplasma\<rparr>;
         b = a\<lparr>dt_e := t_e a - t_e_old a\<rparr>;
         c = b\<lparr>t_e_old := t_e b\<rparr>;
         d = c\<lparr>t_r_old := t_r c\<rparr>
     in d\<lparr>lum_rad_old := lum_rad d\<rparr>)"

text \<open>The end of \<open>ion_abundances\<close> (lines 241-247).\<close>

definition finish_abundances :: "physics \<Rightarrow> globals \<Rightarrow> int \<times> plasma \<Rightarrow> int \<times> plasma" where
  "finish_abundances env g r =
    (if geo_auger_ionization g = 1 then (fst r, auger_ionization env (snd r)) else r)"

text \<open>The part shared by modes 3 and 5 (lines 96-105 and 196-223).\<close>

definition shift_one_shot_converge :: "physics \<Rightarrow> plasma \<Rightarrow> int \<Rightarrow> fatal + int \<times> plasma" where
  "shift_one_shot_converge env xplasma mode =
    (case one_shot env (shift_to_old xplasma) mode of
       Inl e \<Rightarrow> Inl e
     | Inr (ireturn, x) \<Rightarrow> Inr (ireturn, snd (convergence x)))"

text \<open>
  \<open>ion_abundances\<close> (lines 54-249). The result \<open>None\<close> would be a call that does not
  return because a widening loop of mode 5 does not end; it is \<open>Some (Inl e)\<close> when the
  process exits, and \<open>Some (Inr (ireturn, cell))\<close> when the call returns.
\<close>

definition ion_abundances ::
  "physics \<Rightarrow> globals \<Rightarrow> plasma \<Rightarrow> int \<Rightarrow> (fatal + int \<times> plasma) option" where
  "ion_abundances env g xplasma mode =
    (if mode = 0 then Some (Inr (finish_abundances env g (nebular_concentrations env xplasma 2)))
     else if mode = 1 then Some (Inr (finish_abundances env g (nebular_concentrations env xplasma 1)))
     else if mode = 2 then Some (Inr (finish_abundances env g (fix_concentrations env xplasma 0)))
     else if mode = 3 then
       Some (map_sum id (finish_abundances env g) (shift_one_shot_converge env xplasma mode))
     else if mode = 4 then Some (Inr (finish_abundances env g (nebular_concentrations env xplasma 5)))
     else if mode = 5 then
       (case fit_bands env g xplasma [0..<nat (nxfreq g)] of
          None \<Rightarrow> None
        | Some x \<Rightarrow> Some (map_sum id (finish_abundances env g) (shift_one_shot_converge env x mode)))
     else Some (Inl Unknown_mode))"

section \<open>Work partition between ranks\<close>

text \<open>
  \<open>get_parallel_nrange\<close> (para_update.c, lines 38-63) returns \<open>ndo\<close> and writes
  \<open>*my_nmin\<close> and \<open>*my_nmax\<close>; the model returns the triple. The function reads
  the global \<open>rank_global\<close> in its first branch, so the global is the
  first argument of the model, before the arguments of the source. C \<open>int\<close> is
  modelled as \<open>int\<close>: for \<open>0 \<le> ntotal\<close> and \<open>1 \<le> nproc\<close> no product exceeds
  \<open>ntotal + nproc\<close> when the ranks are below \<open>nproc\<close>.
\<close>

definition get_parallel_nrange :: "int \<Rightarrow> int \<Rightarrow> int \<Rightarrow> int \<Rightarrow> int \<times> int \<times> int" where
  "get_parallel_nrange rank_global rank ntotal nproc =
    (let num_mpi_cells = \<lfloor>real_of_int ntotal / real_of_int nproc\<rfloor>;
         num_mpi_extra = ntotal - nproc * num_mpi_cells;
         my_nmin = (if rank < num_mpi_extra
                    then rank_global * (num_mpi_cells + 1)
                    else num_mpi_extra * (num_mpi_cells + 1) + (rank - num_mpi_extra) * num_mpi_cells);
         my_nmax = (if rank < num_mpi_extra
                    then (rank_global + 1) * (num_mpi_cells + 1)
                    else num_mpi_extra * (num_mpi_cells + 1)
                         + (rank - num_mpi_extra + 1) * num_mpi_cells);
         ndo = my_nmax - my_nmin
     in (ndo, my_nmin, my_nmax))"

text \<open>\<open>get_max_cells_per_rank\<close> (para_update.c, lines 83-87) reads the global \<open>np_mpi_global\<close>.\<close>

definition get_max_cells_per_rank :: "int \<Rightarrow> int \<Rightarrow> int" where
  "get_max_cells_per_rank np_mpi_global n_total =
     \<lceil>real_of_int n_total / real_of_int np_mpi_global\<rceil>"

text \<open>
  The first cell of rank \<open>r\<close> when \<open>ntotal\<close> cells are dealt to \<open>nproc\<close> ranks, the
  first \<open>ntotal mod nproc\<close> ranks taking one cell more. It is used to state what
  \<open>get_parallel_nrange\<close> computes on the calling rank.
\<close>

definition range_start :: "int \<Rightarrow> int \<Rightarrow> int \<Rightarrow> int" where
  "range_start ntotal nproc r =
     (if r < ntotal mod nproc then r * (ntotal div nproc + 1)
      else (ntotal mod nproc) * (ntotal div nproc + 1) + (r - ntotal mod nproc) * (ntotal div nproc))"

section \<open>The exchange of spectra between ranks\<close>

text \<open>
  One spectrum of \<open>xxspec\<close>: the four arrays that \<open>gather_extracted_spectrum\<close>
  exchanges, indexed by the wavelength bin.
\<close>

record spectype =
  f :: "nat \<Rightarrow> real"
  lf :: "nat \<Rightarrow> real"
  f_wind :: "nat \<Rightarrow> real"
  lf_wind :: "nat \<Rightarrow> real"

text \<open>The constants and globals that \<open>gather_extracted_spectrum\<close> reads.\<close>

record spec_globals =
  MPI_ON :: bool
  geo_ioniz_or_extract :: int
  CYCLE_EXTRACT :: int
  MSPEC :: nat
  geo_nangles :: nat
  NWAVE_MAX :: nat

definition nspec_of :: "spec_globals \<Rightarrow> nat" where
  "nspec_of c = (if geo_ioniz_or_extract c = CYCLE_EXTRACT c then MSPEC c + geo_nangles c else MSPEC c)"

text \<open>
  The four stores into \<open>redhelper\<close> made by one pass of the inner loop (para_update.c,
  lines 164-167), in the order of the source, as pairs of an index and a value.
\<close>

definition pack_stores ::
  "int \<Rightarrow> nat \<Rightarrow> nat \<Rightarrow> (nat \<Rightarrow> spectype) \<Rightarrow> nat \<Rightarrow> nat \<Rightarrow> (nat \<times> real) list" where
  "pack_stores np_mpi_global nspec nwave xxspec mpi_i mpi_j =
    [(mpi_i * nspec + mpi_j, f (xxspec mpi_j) mpi_i / real_of_int np_mpi_global),
     (mpi_i * nspec + mpi_j + (nwave * nspec), lf (xxspec mpi_j) mpi_i / real_of_int np_mpi_global),
     (mpi_i * nspec + mpi_j + (2 * nwave * nspec),
        f_wind (xxspec mpi_j) mpi_i / real_of_int np_mpi_global),
     (mpi_i * nspec + mpi_j + (3 * nwave * nspec),
        lf_wind (xxspec mpi_j) mpi_i / real_of_int np_mpi_global)]"

definition store :: "(nat \<Rightarrow> real) \<Rightarrow> nat \<times> real \<Rightarrow> (nat \<Rightarrow> real)" where
  "store buf pv = buf(fst pv := snd pv)"

text \<open>
  The send buffer after the two nested loops of lines 160-169: all the stores, in the
  order of the loops, on the zeroed buffer that \<open>calloc\<close> returns.
\<close>

definition pack_spectra :: "int \<Rightarrow> nat \<Rightarrow> nat \<Rightarrow> (nat \<Rightarrow> spectype) \<Rightarrow> (nat \<Rightarrow> real)" where
  "pack_spectra np_mpi_global nspec nwave xxspec =
     foldl store (\<lambda>_. 0)
       (concat (map (\<lambda>mpi_i. concat (map (\<lambda>mpi_j.
           pack_stores np_mpi_global nspec nwave xxspec mpi_i mpi_j) [0..<nspec])) [0..<nwave]))"

text \<open>
  \<open>MPI_Reduce\<close> with \<open>MPI_SUM\<close> followed by \<open>MPI_Bcast\<close> (lines 171-172): every
  rank's \<open>redhelper2\<close> holds, in its first \<open>size_of_commbuffer\<close> entries, the sum over
  the ranks of their send buffers, and zero beyond.
\<close>

definition reduce_bcast :: "nat \<Rightarrow> (nat \<Rightarrow> real) list \<Rightarrow> (nat \<Rightarrow> real)" where
  "reduce_bcast size_of_commbuffer redhelpers =
     (\<lambda>k. if k < size_of_commbuffer then sum_list (map (\<lambda>redhelper. redhelper k) redhelpers) else 0)"

text \<open>One pass of the inner loop of lines 174-183.\<close>

definition unpack_one ::
  "nat \<Rightarrow> nat \<Rightarrow> (nat \<Rightarrow> real) \<Rightarrow> nat \<Rightarrow> (nat \<Rightarrow> spectype) \<Rightarrow> nat \<Rightarrow> (nat \<Rightarrow> spectype)" where
  "unpack_one nspec nwave redhelper2 mpi_i xxspec mpi_j =
     xxspec(mpi_j := (xxspec mpi_j)
       \<lparr>f := (f (xxspec mpi_j))(mpi_i := redhelper2 (mpi_i * nspec + mpi_j)),
        lf := (lf (xxspec mpi_j))(mpi_i := redhelper2 (mpi_i * nspec + mpi_j + (nwave * nspec))),
        f_wind := (f_wind (xxspec mpi_j))
                    (mpi_i := redhelper2 (mpi_i * nspec + mpi_j + (2 * nwave * nspec))),
        lf_wind := (lf_wind (xxspec mpi_j))
                    (mpi_i := redhelper2 (mpi_i * nspec + mpi_j + (3 * nwave * nspec)))\<rparr>)"

definition unpack_spectra ::
  "nat \<Rightarrow> nat \<Rightarrow> (nat \<Rightarrow> real) \<Rightarrow> (nat \<Rightarrow> spectype) \<Rightarrow> (nat \<Rightarrow> spectype)" where
  "unpack_spectra nspec nwave redhelper2 xxspec =
     foldl (\<lambda>x mpi_i. foldl (unpack_one nspec nwave redhelper2 mpi_i) x [0..<nspec])
       xxspec [0..<nwave]"

text \<open>
  \<open>gather_extracted_spectrum\<close> (lines 138-190), run by all the ranks together: the
  argument is the list of the ranks' \<open>xxspec\<close>, rank 0 first, and \<open>np_mpi_global\<close> is
  its length; the result is the list of the ranks' \<open>xxspec\<close> on return. Every rank
  returns 0.
\<close>

definition gather_extracted_spectrum ::
  "spec_globals \<Rightarrow> (nat \<Rightarrow> spectype) list \<Rightarrow> (nat \<Rightarrow> spectype) list" where
  "gather_extracted_spectrum c ranks =
    (if MPI_ON c
     then (let nspec = nspec_of c;
               size_of_commbuffer = 4 * nspec * NWAVE_MAX c;
               redhelper2 = reduce_bcast size_of_commbuffer
                  (map (pack_spectra (int (length ranks)) nspec (NWAVE_MAX c)) ranks)
           in map (unpack_spectra nspec (NWAVE_MAX c) redhelper2) ranks)
     else ranks)"

text \<open>The four exchanged arrays of a spectrum by number, in the order of the send buffer.\<close>

definition quantity :: "nat \<Rightarrow> spectype \<Rightarrow> nat \<Rightarrow> real" where
  "quantity k s = (if k = 0 then f s else if k = 1 then lf s else if k = 2 then f_wind s else lf_wind s)"

section \<open>Cells and routines for the examples\<close>

text \<open>A cell with every field zero; the examples below update the fields they need.\<close>

definition cell_zero :: plasma where
  "cell_zero =
    \<lparr>t_e = 0, t_e_old = 0, t_r = 0, t_r_old = 0, dt_e = 0, dt_e_old = 0, gain = 0,
     heat_tot = 0, heat_lines = 0, heat_lines_macro = 0, heat_photo = 0, heat_photo_macro = 0,
     lum_rad = 0, lum_rad_old = 0, lum_adiabatic = 0, lum_dr = 0, lum_comp = 0,
     ave_freq = 0, ne = 0, xj = (\<lambda>_. 0), xave_freq = (\<lambda>_. 0), nxtot = (\<lambda>_. 0),
     sim_alpha = (\<lambda>_. Fin 0), sim_w = (\<lambda>_. Fin 0),
     converge_t_r = Fin 0, converge_t_e = Fin 0, converge_hc = Fin 0,
     trcheck = 0, techeck = 0, hccheck = 0, converge_whole = 0, converging = 0\<rparr>"

text \<open>
  Routines for the examples. The abundance routines leave the cell as it is;
  \<open>nebular_concentrations\<close> reports a failure (status 1). There is no macro-atom
  heating and the only cooling is the emission, equal to \<open>t_e\<close>, so that heating minus
  cooling is \<open>heat_tot - t\<close>. The temperature solver evaluates its function once, at
  the middle of the bracket, and returns that point. The slope solver returns the upper
  end of its bracket; the examples call it where the upper end is an exact root, or where
  the function is not a number there.
\<close>

definition toy_physics :: physics where
  "toy_physics =
    \<lparr>nebular_concentrations = (\<lambda>x m. (1, x)),
     fix_concentrations = (\<lambda>x m. (0, x)),
     macro_bb_heating = (\<lambda>x t. 0),
     macro_bf_heating = (\<lambda>x t. 0),
     adiabatic_cooling = (\<lambda>x t. 0),
     total_dr = (\<lambda>x t. 0),
     total_comp = (\<lambda>x t. 0),
     total_emission = (\<lambda>x a b. t_e x),
     auger_ionization = (\<lambda>x. x),
     zbrent_te = (\<lambda>h a b tol x. ((a + b) / 2, snd (h ((a + b) / 2) x))),
     zbrent_alpha = (\<lambda>h a b tol. b),
     VERY_BIG = 10 ^ 50\<rparr>"

text \<open>One band, \<open>[1, 3]\<close>, which is also the coarse band; no Auger ionization.\<close>

definition toy_globals :: globals where
  "toy_globals =
    \<lparr>geo_auger_ionization = 0, xband_f1 = (\<lambda>_. 1), xband_f2 = (\<lambda>_. 3), xband_nbands = 1,
     xfreq = (\<lambda>n. if n = 0 then 1 else 3), nxfreq = 1\<rparr>"

text \<open>
  A cell in equilibrium at temperature 100 whose only band holds no photons
  (\<open>nxtot\<close> is 0); its mean frequency 2 is the mean of a flat spectrum on \<open>[1, 3]\<close>.
\<close>

definition cell_hot :: plasma where
  "cell_hot = cell_zero\<lparr>t_e := 100, t_r := 100, heat_tot := 100, gain := 0.5, ave_freq := 2,
                sim_alpha := (\<lambda>_. Fin (- 0.1)), sim_w := (\<lambda>_. Fin 5)\<rparr>"

text \<open>The same cell with a steeper slope, so that the first bracket ends at \<open>-1\<close>.\<close>

definition cell_steep :: plasma where
  "cell_steep = cell_hot\<lparr>sim_alpha := (\<lambda>_. Fin (- 1.1))\<rparr>"

text \<open>
  An extraction cycle with three spectra of four wavelength bins, and the spectra held by
  one rank.
\<close>

definition example_spec_globals :: spec_globals where
  "example_spec_globals =
     \<lparr>MPI_ON = True, geo_ioniz_or_extract = 1, CYCLE_EXTRACT = 1, MSPEC = 2, geo_nangles = 1,
      NWAVE_MAX = 4\<rparr>"

definition example_xxspec :: "nat \<Rightarrow> spectype" where
  "example_xxspec mpi_j =
     \<lparr>f = (\<lambda>mpi_i. real (mpi_i + mpi_j)), lf = (\<lambda>mpi_i. real mpi_i / 3),
      f_wind = (\<lambda>mpi_i. real mpi_j), lf_wind = (\<lambda>mpi_i. 1 / 7)\<rparr>"

section \<open>Properties of the convergence monitor\<close>

lemma convergence_converging:
  "converging (snd (convergence s)) =
     (if dt_e_old s * dt_e s < 0 \<and> \<bar>dt_e s\<bar> > \<bar>dt_e_old s\<bar> then 1 else 0)"
  by (simp add: convergence_def Let_def)

lemma convergence_gain:
  "gain (snd (convergence s)) =
     (if dt_e_old s * dt_e s < 0 \<and> \<bar>dt_e s\<bar> > \<bar>dt_e_old s\<bar>
      then max 0.1 (gain s * 0.7) else min 0.8 (gain s * 1.1))"
  by (simp add: convergence_def Let_def max_def min_def)

text \<open>
  C3 (as amended). After a call of \<open>convergence\<close>, \<open>converging\<close> is 1 exactly when
  \<open>dt_e_old * dt_e < 0\<close> and \<open>|dt_e| > |dt_e_old|\<close>, and is 0 otherwise; when it is 1 the
  new gain is the old gain times 0.7 floored at 0.1, otherwise the old gain times 1.1
  capped at 0.8. Each branch clamps on one side only, so the new gain lies in
  \<open>[0.1, 0.8]\<close> provided the old gain does.
\<close>

theorem convergence_gain_law:
  "(converging (snd (convergence s)) = 1
      \<longleftrightarrow> dt_e_old s * dt_e s < 0 \<and> \<bar>dt_e s\<bar> > \<bar>dt_e_old s\<bar>)
   \<and> (converging (snd (convergence s)) = 1 \<or> converging (snd (convergence s)) = 0)
   \<and> gain (snd (convergence s)) =
        (if converging (snd (convergence s)) = 1
         then max 0.1 (gain s * 0.7) else min 0.8 (gain s * 1.1))
   \<and> (0.1 \<le> gain s \<and> gain s \<le> 0.8
        \<longrightarrow> 0.1 \<le> gain (snd (convergence s)) \<and> gain (snd (convergence s)) \<le> 0.8)"
  by (simp add: convergence_converging convergence_gain max_def min_def)

text \<open>
  The law at the oscillating cell of the specification's third scenario: the last two
  steps were \<open>+1000\<close> and \<open>-1500\<close> and the gain was 0.5.
\<close>

theorem convergence_gain_law_witness:
  "0.1 \<le> gain (cell_zero\<lparr>gain := 0.5, dt_e_old := 1000, dt_e := - 1500\<rparr>)
   \<and> gain (cell_zero\<lparr>gain := 0.5, dt_e_old := 1000, dt_e := - 1500\<rparr>) \<le> 0.8
   \<and> converging (snd (convergence (cell_zero\<lparr>gain := 0.5, dt_e_old := 1000, dt_e := - 1500\<rparr>))) = 1
   \<and> 0.1 \<le> gain (snd (convergence (cell_zero\<lparr>gain := 0.5, dt_e_old := 1000, dt_e := - 1500\<rparr>)))
   \<and> gain (snd (convergence (cell_zero\<lparr>gain := 0.5, dt_e_old := 1000, dt_e := - 1500\<rparr>))) \<le> 0.8"
  using convergence_gain_law [of "cell_zero\<lparr>gain := 0.5, dt_e_old := 1000, dt_e := - 1500\<rparr>"]
  by simp

text \<open>
  C3 as stated fails: a cell that enters with gain 2 and oscillates leaves with gain 1.4,
  above 0.8; the branch taken multiplies by 0.7 and only tests the floor.
\<close>

theorem convergence_gain_counterexample:
  "converging (snd (convergence (cell_zero\<lparr>gain := 2, dt_e_old := 1, dt_e := - 2\<rparr>))) = 1
   \<and> gain (snd (convergence (cell_zero\<lparr>gain := 2, dt_e_old := 1, dt_e := - 2\<rparr>))) = 1.4
   \<and> \<not> gain (snd (convergence (cell_zero\<lparr>gain := 2, dt_e_old := 1, dt_e := - 2\<rparr>))) \<le> 0.8"
  by (simp add: convergence_converging convergence_gain)

section \<open>Properties of the global convergence check\<close>

lemma foldl_count_cell:
  "ntot (foldl count_cell c ps) = ntot c + int (length ps)"
  "nconverge (foldl count_cell c ps) = nconverge c + int (length (filter (\<lambda>p. converge_whole p = 0) ps))"
  "nconverging (foldl count_cell c ps) = nconverging c + int (length (filter (\<lambda>p. converging p = 0) ps))"
  "ntr (foldl count_cell c ps) = ntr c + int (length (filter (\<lambda>p. trcheck p = 0) ps))"
  "nte (foldl count_cell c ps) = nte c + int (length (filter (\<lambda>p. techeck p = 0) ps))"
  "nhc (foldl count_cell c ps) = nhc c + int (length (filter (\<lambda>p. hccheck p = 0) ps))"
  by (induction ps arbitrary: c) (simp_all add: count_cell_def)

text \<open>
  What \<open>check_convergence\<close> reports: the counts of converged and of converging cells
  are exact and the value returned is 0, but each of the three counts per criterion is the
  number of cells that meet the criterion plus whatever its counter held on entry.
\<close>

lemma check_convergence_report:
  "ntot (check_convergence ntr0 nte0 nhc0 cells) = int (length cells)"
  "nconverge (check_convergence ntr0 nte0 nhc0 cells) = int (length (filter (\<lambda>p. converge_whole p = 0) cells))"
  "nconverging (check_convergence ntr0 nte0 nhc0 cells) = int (length (filter (\<lambda>p. converging p = 0) cells))"
  "ntr (check_convergence ntr0 nte0 nhc0 cells) = ntr0 + int (length (filter (\<lambda>p. trcheck p = 0) cells))"
  "nte (check_convergence ntr0 nte0 nhc0 cells) = nte0 + int (length (filter (\<lambda>p. techeck p = 0) cells))"
  "nhc (check_convergence ntr0 nte0 nhc0 cells) = nhc0 + int (length (filter (\<lambda>p. hccheck p = 0) cells))"
  "returned (check_convergence ntr0 nte0 nhc0 cells) = 0"
  by (simp_all add: check_convergence_def Let_def foldl_count_cell)

text \<open>
  C9. \<open>check_convergence\<close> is to report the exact number of cells with
  \<open>converge_whole == 0\<close>, with \<open>trcheck == 0\<close>, with \<open>techeck == 0\<close>, with
  \<open>hccheck == 0\<close> and with \<open>converging == 0\<close>, and to return 0. The code does so
  for the first and the last count and for the value returned, but not for the three
  counts per criterion: with one cell, which meets all three criteria, and counters that
  hold 7, 0 and 3 on entry, it reports 8, 1 and 4 where the exact count is 1.
\<close>

theorem check_convergence_uninitialised_counters:
  "ntr (check_convergence 7 0 3 [cell_zero]) = 8
   \<and> nte (check_convergence 7 0 3 [cell_zero]) = 1
   \<and> nhc (check_convergence 7 0 3 [cell_zero]) = 4
   \<and> int (length (filter (\<lambda>p. trcheck p = 0) [cell_zero])) = 1
   \<and> int (length (filter (\<lambda>p. hccheck p = 0) [cell_zero])) = 1
   \<and> nconverge (check_convergence 7 0 3 [cell_zero]) = 1
   \<and> nconverging (check_convergence 7 0 3 [cell_zero]) = 1
   \<and> returned (check_convergence 7 0 3 [cell_zero]) = 0"
  by (simp add: check_convergence_report) (simp add: cell_zero_def)

section \<open>Properties of the partition\<close>

lemma floor_quotient:
  "0 < nproc \<Longrightarrow> \<lfloor>real_of_int ntotal / real_of_int nproc\<rfloor> = ntotal div nproc"
  by (simp add: floor_divide_of_int_eq)

lemma extra_is_mod: "ntotal - nproc * (ntotal div nproc) = ntotal mod (nproc::int)"
  by (simp add: minus_mult_div_eq_mod)

text \<open>On the calling rank (\<open>rank = rank_global\<close>) the range runs from one start to the next.\<close>

lemma own_range:
  assumes "0 < nproc"
  shows "get_parallel_nrange r r ntotal nproc =
           (range_start ntotal nproc (r + 1) - range_start ntotal nproc r,
            range_start ntotal nproc r, range_start ntotal nproc (r + 1))"
proof -
  have q: "\<lfloor>real_of_int ntotal / real_of_int nproc\<rfloor> = ntotal div nproc"
    using assms by (rule floor_quotient)
  show ?thesis
    unfolding get_parallel_nrange_def q extra_is_mod Let_def range_start_def
    by (auto simp: algebra_simps)
qed

lemma range_start_0: "0 < nproc \<Longrightarrow> range_start ntotal nproc 0 = 0"
proof -
  assume p: "0 < nproc"
  have "0 \<le> ntotal mod nproc" using p by simp
  then show ?thesis by (auto simp: range_start_def)
qed

lemma range_start_nproc: "0 < nproc \<Longrightarrow> range_start ntotal nproc nproc = ntotal"
proof -
  assume p: "0 < nproc"
  have "ntotal mod nproc < nproc" using p by simp
  then have "\<not> nproc < ntotal mod nproc" by linarith
  then have "range_start ntotal nproc nproc
        = (ntotal mod nproc) * (ntotal div nproc + 1) + (nproc - ntotal mod nproc) * (ntotal div nproc)"
    by (simp add: range_start_def)
  also have "\<dots> = nproc * (ntotal div nproc) + ntotal mod nproc"
    by (simp add: algebra_simps)
  finally show ?thesis by simp
qed

lemma range_start_step:
  "range_start ntotal nproc (r + 1) - range_start ntotal nproc r
           = (if r < ntotal mod nproc then ntotal div nproc + 1 else ntotal div nproc)"
  unfolding range_start_def by (auto simp: algebra_simps)

lemma range_start_step_nonneg:
  assumes "0 < nproc" "0 \<le> ntotal"
  shows "range_start ntotal nproc r \<le> range_start ntotal nproc (r + 1)"
proof -
  have "0 \<le> ntotal div nproc" using assms by (simp add: pos_imp_zdiv_nonneg_iff)
  then show ?thesis using range_start_step[of ntotal nproc r] by (auto split: if_splits)
qed

lemma range_start_mono_nat:
  assumes "0 < nproc" "0 \<le> ntotal"
  shows "range_start ntotal nproc r \<le> range_start ntotal nproc (r + int k)"
proof (induction k)
  case 0 show ?case by simp
next
  case (Suc k)
  have "range_start ntotal nproc (r + int k) \<le> range_start ntotal nproc (r + int k + 1)"
    using assms by (rule range_start_step_nonneg)
  moreover have "r + int (Suc k) = r + int k + 1" by simp
  ultimately have "range_start ntotal nproc (r + int k) \<le> range_start ntotal nproc (r + int (Suc k))"
    by (simp only:)
  with Suc show ?case by (rule order_trans)
qed

lemma range_start_mono:
  assumes "0 < nproc" "0 \<le> ntotal" "r \<le> r'"
  shows "range_start ntotal nproc r \<le> range_start ntotal nproc r'"
proof -
  from assms(3) obtain k where "r' = r + int k" using zle_iff_zadd by auto
  then show ?thesis using range_start_mono_nat[OF assms(1,2)] by simp
qed

lemma range_cover_nat:
  assumes "0 < nproc" "0 \<le> ntotal"
  shows "0 \<le> n \<Longrightarrow> n < range_start ntotal nproc (int k)
        \<Longrightarrow> \<exists>r. 0 \<le> r \<and> r < int k \<and> range_start ntotal nproc r \<le> n
                \<and> n < range_start ntotal nproc (r + 1)"
proof (induction k)
  case 0
  then show ?case using range_start_0[OF assms(1)] by simp
next
  case (Suc k)
  show ?case
  proof (cases "n < range_start ntotal nproc (int k)")
    case True
    with Suc obtain r where "0 \<le> r" "r < int k" "range_start ntotal nproc r \<le> n"
        "n < range_start ntotal nproc (r + 1)" by blast
    then show ?thesis by (intro exI[of _ r]) simp
  next
    case False
    with Suc.prems show ?thesis by (intro exI[of _ "int k"]) (simp add: add.commute)
  qed
qed

text \<open>
  The partition laws when every rank asks for its own range: the ranges of two different
  ranks do not overlap, every cell of \<open>[0, ntotal)\<close> lies in the range of some rank, the
  sizes are \<open>ntotal div nproc\<close> or one more, and none exceeds \<open>get_max_cells_per_rank\<close>.
\<close>

lemma own_ranges_disjoint:
  assumes "0 < nproc" "0 \<le> ntotal" "r < r'"
  shows "snd (snd (get_parallel_nrange r r ntotal nproc))
           \<le> fst (snd (get_parallel_nrange r' r' ntotal nproc))"
  using range_start_mono[OF assms(1,2), of "r + 1" r'] assms(3)
  by (simp add: own_range[OF assms(1)])

lemma own_ranges_cover:
  assumes "0 < nproc" "0 \<le> ntotal" "0 \<le> n" "n < ntotal"
  shows "\<exists>r. 0 \<le> r \<and> r < nproc
              \<and> fst (snd (get_parallel_nrange r r ntotal nproc)) \<le> n
              \<and> n < snd (snd (get_parallel_nrange r r ntotal nproc))"
proof -
  have "n < range_start ntotal nproc (int (nat nproc))"
    using assms range_start_nproc[OF assms(1), of ntotal] by simp
  from range_cover_nat[OF assms(1,2) assms(3) this]
  show ?thesis using assms(1) by (simp add: own_range[OF assms(1)])
qed

lemma own_ranges_within:
  assumes "0 < nproc" "0 \<le> ntotal" "0 \<le> r" "r < nproc"
  shows "0 \<le> fst (snd (get_parallel_nrange r r ntotal nproc))
         \<and> snd (snd (get_parallel_nrange r r ntotal nproc)) \<le> ntotal"
  using range_start_mono[OF assms(1,2), of 0 r] range_start_mono[OF assms(1,2), of "r + 1" nproc]
        assms(3,4) range_start_0[OF assms(1), of ntotal] range_start_nproc[OF assms(1), of ntotal]
  by (simp add: own_range[OF assms(1)])

lemma own_range_size:
  assumes "0 < nproc"
  shows "fst (get_parallel_nrange r r ntotal nproc)
           = (if r < ntotal mod nproc then ntotal div nproc + 1 else ntotal div nproc)"
  using range_start_step[of ntotal nproc r] by (simp add: own_range[OF assms(1)])

lemma own_range_size_le_max:
  assumes "0 < nproc" "0 \<le> r"
  shows "fst (get_parallel_nrange r r ntotal nproc) \<le> get_max_cells_per_rank nproc ntotal"
proof -
  have c: "get_max_cells_per_rank nproc ntotal = - ((- ntotal) div nproc)"
    unfolding get_max_cells_per_rank_def ceiling_def
    using floor_divide_of_int_eq[of "- ntotal" nproc] by simp
  show ?thesis
  proof (cases "ntotal mod nproc = 0")
    case True
    then have "(- ntotal) div nproc = - (ntotal div nproc)"
      using assms(1) by (simp add: zdiv_zminus1_eq_if)
    then show ?thesis using True assms
      by (simp add: own_range_size[OF assms(1)] c)
  next
    case False
    then have "(- ntotal) div nproc = - (ntotal div nproc) - 1"
      using assms(1) by (simp add: zdiv_zminus1_eq_if)
    then show ?thesis
      by (simp add: own_range_size[OF assms(1)] c)
  qed
qed

text \<open>
  C7. The ranges that \<open>get_parallel_nrange\<close> produces for the ranks
  \<open>0, ..., nproc - 1\<close> are to be pairwise disjoint, to cover \<open>[0, ntotal)\<close>, to differ
  in size by at most 1 and to hold at most \<open>get_max_cells_per_rank\<close> cells. By the
  lemmas above they do when each rank computes its own range. They do not when a process
  computes the range of another rank, because the branch for \<open>rank < num_mpi_extra\<close>
  takes both bounds from the global \<open>rank_global\<close> and not from the argument \<open>rank\<close>.
  With 10 cells and 3 ranks, rank 0 computes \<open>[0, 4)\<close> for itself, but on the process
  whose \<open>rank_global\<close> is 1 the call for rank 0 returns \<open>[4, 8)\<close>: it overlaps the
  ranges \<open>[4, 7)\<close> of rank 1 and \<open>[7, 10)\<close> of rank 2, and no range holds the cells 0
  to 3.
\<close>

theorem get_parallel_nrange_other_rank:
  "get_parallel_nrange 0 0 10 3 = (4, 0, 4)
   \<and> get_parallel_nrange 1 0 10 3 = (4, 4, 8)
   \<and> get_parallel_nrange 1 1 10 3 = (3, 4, 7)
   \<and> get_parallel_nrange 1 2 10 3 = (3, 7, 10)
   \<and> get_max_cells_per_rank 3 10 = 4"
  by (simp add: get_parallel_nrange_def get_max_cells_per_rank_def Let_def)

section \<open>Properties of the temperature solver\<close>

lemma t_e_reset_lines [simp]: "t_e (reset_heat_lines_macro env x t) = t_e x"
  by (simp add: reset_heat_lines_macro_def Let_def)

lemma t_e_reset_photo [simp]: "t_e (reset_heat_photo_macro env x t) = t_e x"
  by (simp add: reset_heat_photo_macro_def Let_def)

lemma t_e_choose_te:
  "t_e (choose_te env tmin tmax z1 z2 x) =
     (if z1 * z2 < 0 then fst (zbrent_te env (zero_emit env) tmin tmax 50 x)
      else if \<bar>z1\<bar> < \<bar>z2\<bar> then tmin else tmax)"
  by (simp add: choose_te_def split: prod.splits)

lemma calc_te_fst: "fst (calc_te env xplasma tmin tmax) = t_e (snd (calc_te env xplasma tmin tmax))"
  by (simp add: calc_te_def Let_def split: prod.splits)

lemma calc_te_t_e:
  "t_e (snd (calc_te env xplasma tmin tmax)) =
    t_e (choose_te env tmin tmax
          (fst (zero_emit env tmin (xplasma\<lparr>t_e := tmin\<rparr>)))
          (fst (zero_emit env tmax ((snd (zero_emit env tmin (xplasma\<lparr>t_e := tmin\<rparr>)))\<lparr>t_e := tmax\<rparr>)))
          (snd (zero_emit env tmax ((snd (zero_emit env tmin (xplasma\<lparr>t_e := tmin\<rparr>)))\<lparr>t_e := tmax\<rparr>))))"
  by (simp add: calc_te_def Let_def split: prod.splits)

lemma straddle: "(z1 * z2 < 0) = ((z1 < 0 \<and> 0 < z2) \<or> (0 < z1 \<and> z2 < (0::real)))"
  by (auto simp: mult_less_0_iff)

text \<open>
  C1. For every cell and every bracket, \<open>calc_te\<close> evaluates \<open>zero_emit\<close> at \<open>tmin\<close>
  and then, on the cell that this evaluation leaves, at \<open>tmax\<close>. If the two values have
  opposite strict signs, it returns what \<open>zbrent\<close> returns for \<open>zero_emit\<close> on
  \<open>[tmin, tmax]\<close> with tolerance 50; otherwise it returns \<open>tmin\<close> when the first value
  is smaller in absolute value and \<open>tmax\<close> when it is not. The cell returned holds the
  returned temperature in \<open>t_e\<close>.
\<close>

theorem calc_te_result:
  "(let r1 = zero_emit env tmin (xplasma\<lparr>t_e := tmin\<rparr>);
        r2 = zero_emit env tmax ((snd r1)\<lparr>t_e := tmax\<rparr>);
        res = calc_te env xplasma tmin tmax
    in fst res =
         (if (fst r1 < 0 \<and> 0 < fst r2) \<or> (0 < fst r1 \<and> fst r2 < 0)
          then fst (zbrent_te env (zero_emit env) tmin tmax 50 (snd r2))
          else if \<bar>fst r1\<bar> < \<bar>fst r2\<bar> then tmin else tmax)
       \<and> t_e (snd res) = fst res)"
  unfolding Let_def calc_te_fst calc_te_t_e t_e_choose_te straddle by simp

section \<open>The example routines\<close>

lemma toy_fields:
  "nebular_concentrations toy_physics = (\<lambda>x m. (1, x))"
  "fix_concentrations toy_physics = (\<lambda>x m. (0, x))"
  "macro_bb_heating toy_physics = (\<lambda>x t. 0)"
  "macro_bf_heating toy_physics = (\<lambda>x t. 0)"
  "adiabatic_cooling toy_physics = (\<lambda>x t. 0)"
  "total_dr toy_physics = (\<lambda>x t. 0)"
  "total_comp toy_physics = (\<lambda>x t. 0)"
  "total_emission toy_physics = (\<lambda>x a b. t_e x)"
  "auger_ionization toy_physics = (\<lambda>x. x)"
  "zbrent_te toy_physics = (\<lambda>h a b tol x. ((a + b) / 2, snd (h ((a + b) / 2) x)))"
  "zbrent_alpha toy_physics = (\<lambda>h a b tol. b)"
  by (simp_all add: toy_physics_def)

lemma zero_emit_toy: "zero_emit toy_physics t x = (heat_tot x - heat_lines_macro x - heat_photo_macro x - t,
   x\<lparr>t_e := t, heat_tot := heat_tot x - heat_lines_macro x - heat_photo_macro x,
      heat_lines := heat_lines x - heat_lines_macro x, heat_lines_macro := 0,
      heat_photo := heat_photo x - heat_photo_macro x, heat_photo_macro := 0,
      lum_adiabatic := 0, lum_dr := 0, lum_comp := 0\<rparr>)"
  by (simp add: zero_emit_def toy_fields reset_heat_lines_macro_def reset_heat_photo_macro_def
       set_cooling_def Let_def)

lemma t_r_zero_emit [simp]: "t_r (snd (zero_emit env t x)) = t_r x"
  by (simp add: zero_emit_def reset_heat_lines_macro_def reset_heat_photo_macro_def
       set_cooling_def Let_def)

lemma t_r_reset_lines [simp]: "t_r (reset_heat_lines_macro env x t) = t_r x"
  by (simp add: reset_heat_lines_macro_def Let_def)

lemma t_r_reset_photo [simp]: "t_r (reset_heat_photo_macro env x t) = t_r x"
  by (simp add: reset_heat_photo_macro_def Let_def)

lemma t_r_choose_te_toy [simp]: "t_r (choose_te toy_physics a b z1 z2 x) = t_r x"
  by (simp add: choose_te_def toy_fields case_prod_beta)

lemma t_r_calc_te_toy: "t_r (snd (calc_te toy_physics x a b)) = t_r x"
  by (simp add: calc_te_def case_prod_beta Let_def)

lemma calc_te_toy_hot:
  "fst (calc_te toy_physics cell_hot 70 130) = 100"
  by (simp add: calc_te_fst calc_te_t_e t_e_choose_te zero_emit_toy toy_fields cell_hot_def cell_zero_def)

lemma DBL_UNDERFLOW_small: "0 < DBL_UNDERFLOW" "DBL_UNDERFLOW < 1 / 1000"
  by (simp_all add: DBL_UNDERFLOW_def)

lemma DBL_OVERFLOW_big: "1000 < DBL_OVERFLOW"
  by (simp add: DBL_OVERFLOW_def)

lemma to_double_0 [simp]: "to_double 0 = Fin 0"
  using DBL_UNDERFLOW_small(1) DBL_OVERFLOW_big by (simp add: to_double_def)

lemma to_double_Fin:
  "1 / 1000 \<le> \<bar>r\<bar> \<Longrightarrow> \<bar>r\<bar> \<le> 1000 \<Longrightarrow> to_double r = Fin r"
  using DBL_UNDERFLOW_small(2) DBL_OVERFLOW_big unfolding to_double_def
  by (auto simp: abs_if split: if_splits)

lemma cpow_pos: "0 < x \<Longrightarrow> cpow x y = to_double (x powr y)"
  by (simp add: cpow_def)

lemma cd_mul_NaN [simp]: "cd_mul X NaN = NaN"
  by (cases X) simp_all

lemma cd_sub_NaN [simp]: "cd_sub X NaN = NaN"
  by (cases X) simp_all

lemma cd_quot_NaN [simp]: "cd_quot X NaN = NaN"
  by (cases X) simp_all

lemma widen_bracket_stop:
  "\<not> cd_prod_pos (g a) (g b) \<Longrightarrow> widen_bracket g (a, b) = Some (a, b)"
  by (subst widen_bracket.simps) simp

lemma cd_prod_pos_zero [simp]: "cd_prod_pos X (Fin 0) = False"
  by (cases X) (simp_all add: cd_prod_pos_def)

lemma cd_prod_pos_NaN [simp]: "cd_prod_pos X NaN = False" "cd_prod_pos NaN X = False"
  by (simp_all add: cd_prod_pos_def)

lemma g_at_0: "sim_alpha_func 1 3 2 (Fin 0) = Fin 0"
  by (simp add: cpow_pos to_double_Fin)

lemma g_at_m1: "sim_alpha_func 1 3 2 (Fin (- 1)) = NaN"
  by (simp add: cpow_pos to_double_Fin)

lemma fit_candidates_hot:
  "fit_candidates toy_physics (Fin (- 0.1)) 1 3 2 0 = Some (Fin 0, Fin 0)"
proof -
  have "widen_bracket (sim_alpha_func 1 3 2) (Fin (- 0.2), Fin 0) = Some (Fin (- 0.2), Fin 0)"
    by (rule widen_bracket_stop) (simp only: g_at_0 cd_prod_pos_zero, simp)
  then show ?thesis
    by (simp add: fit_candidates_def toy_fields clamp_alpha_def sim_w_func_def cpow_pos
          to_double_Fin Let_def)
qed

lemma band_inputs_hot:
  "band_inputs toy_globals cell_hot 0 = (cell_hot\<lparr>sim_w := (sim_w cell_hot)(0 := Fin 0)\<rparr>, 1, 3, 2, 0)"
  by (simp add: band_inputs_def toy_globals_def cell_hot_def cell_zero_def)

lemma fit_band_hot:
  "fit_band toy_physics toy_globals cell_hot 0 =
     Some (cell_hot\<lparr>sim_alpha := (sim_alpha cell_hot)(0 := Fin 0), sim_w := (sim_w cell_hot)(0 := Fin 0)\<rparr>)"
proof -
  have a: "sim_alpha cell_hot 0 = Fin (- 0.1)" by (simp add: cell_hot_def)
  show ?thesis
    by (simp add: fit_band_def band_inputs_hot a fit_candidates_hot sane_check_def)
qed

lemma fit_bands_hot:
  "fit_bands toy_physics toy_globals cell_hot [0..<nat (nxfreq toy_globals)] =
     Some (cell_hot\<lparr>sim_alpha := (sim_alpha cell_hot)(0 := Fin 0), sim_w := (sim_w cell_hot)(0 := Fin 0)\<rparr>)"
proof -
  have "[0..<nat (nxfreq toy_globals)] = [0]" by (simp add: toy_globals_def)
  then show ?thesis by (simp add: fit_band_hot)
qed

section \<open>Properties of the steering routine\<close>

lemma shift_to_old_eq:
  "shift_to_old x = x\<lparr>dt_e_old := dt_e x, dt_e := t_e x - t_e_old x, t_e_old := t_e x,
                        t_r_old := t_r x, lum_rad_old := lum_rad x\<rparr>"
  by (simp add: shift_to_old_def Let_def)

lemma band_inputs_frame:
  "fst (band_inputs g x b) = x\<lparr>sim_w := sim_w (fst (band_inputs g x b))\<rparr>"
  by (simp add: band_inputs_def)

lemma fit_band_frame:
  assumes "fit_band env g x b = Some y"
  shows "y = x\<lparr>sim_alpha := sim_alpha y, sim_w := sim_w y\<rparr>"
proof -
  define x1 where "x1 = fst (band_inputs g x b)"
  have x1: "x1 = x\<lparr>sim_w := sim_w x1\<rparr>"
    unfolding x1_def by (rule band_inputs_frame)
  from assms have "y = x1 \<or> y = x1\<lparr>sim_alpha := sim_alpha y, sim_w := sim_w y\<rparr>"
    unfolding fit_band_def x1_def
    by (auto simp: case_prod_beta split: option.splits if_splits)
  then show ?thesis
  proof
    assume "y = x1"
    with x1 have "y = x\<lparr>sim_w := sim_w y\<rparr>" by simp
    then have "x\<lparr>sim_alpha := sim_alpha y, sim_w := sim_w y\<rparr> = y"
      by (metis plasma.surjective plasma.update_convs(23) plasma.update_convs(24) plasma.select_convs(23))
    then show ?thesis by simp
  next
    assume "y = x1\<lparr>sim_alpha := sim_alpha y, sim_w := sim_w y\<rparr>"
    then have "y = x\<lparr>sim_w := sim_w x1\<rparr>\<lparr>sim_alpha := sim_alpha y, sim_w := sim_w y\<rparr>"
      using x1 by simp
    then show ?thesis by simp
  qed
qed

lemma fit_bands_frame:
  "fit_bands env g x bs = Some y \<Longrightarrow> y = x\<lparr>sim_alpha := sim_alpha y, sim_w := sim_w y\<rparr>"
proof (induction bs arbitrary: x)
  case Nil
  then show ?case by simp
next
  case (Cons b bs)
  from Cons.prems obtain x1 where 1: "fit_band env g x b = Some x1" and 2: "fit_bands env g x1 bs = Some y"
    by (auto split: option.splits)
  from fit_band_frame[OF 1] have x1: "x1 = x\<lparr>sim_alpha := sim_alpha x1, sim_w := sim_w x1\<rparr>" .
  from Cons.IH[OF 2] have "y = x1\<lparr>sim_alpha := sim_alpha y, sim_w := sim_w y\<rparr>" .
  then have "y = x\<lparr>sim_alpha := sim_alpha x1, sim_w := sim_w x1\<rparr>\<lparr>sim_alpha := sim_alpha y, sim_w := sim_w y\<rparr>"
    using x1 by simp
  then show ?case by simp
qed

lemma fit_bands_history:
  assumes "fit_bands env g x bs = Some y"
  shows "t_e y = t_e x" "t_e_old y = t_e_old x" "dt_e y = dt_e x" "t_r y = t_r x" "lum_rad y = lum_rad x"
proof -
  have y: "y = x\<lparr>sim_alpha := sim_alpha y, sim_w := sim_w y\<rparr>"
    using assms by (rule fit_bands_frame)
  show "t_e y = t_e x" by (subst y) simp
  show "t_e_old y = t_e_old x" by (subst y) simp
  show "dt_e y = dt_e x" by (subst y) simp
  show "t_r y = t_r x" by (subst y) simp
  show "lum_rad y = lum_rad x" by (subst y) simp
qed

lemma ion_abundances_mode3:
  "ion_abundances env g x 3 =
     Some (case one_shot env (shift_to_old x) 3 of
             Inl e \<Rightarrow> Inl e
           | Inr r \<Rightarrow> Inr (finish_abundances env g (fst r, snd (convergence (snd r)))))"
  by (simp add: ion_abundances_def shift_one_shot_converge_def split: sum.splits prod.splits)

lemma ion_abundances_mode5:
  "fit_bands env g x [0..<nat (nxfreq g)] = Some y \<Longrightarrow>
   ion_abundances env g x 5 =
     Some (case one_shot env (shift_to_old y) 5 of
             Inl e \<Rightarrow> Inl e
           | Inr r \<Rightarrow> Inr (finish_abundances env g (fst r, snd (convergence (snd r)))))"
  by (simp add: ion_abundances_def shift_one_shot_converge_def split: sum.splits prod.splits)

text \<open>
  C2. The five assignments leave the cell with \<open>t_e_old\<close>, \<open>dt_e_old\<close>, \<open>dt_e\<close>,
  \<open>t_r_old\<close> and \<open>lum_rad_old\<close> equal to \<open>t_e\<close>, \<open>dt_e\<close>, \<open>t_e - t_e_old\<close>,
  \<open>t_r\<close> and \<open>lum_rad\<close> as they were on entry, and change nothing else. In mode 3
  \<open>one_shot\<close> runs on the shifted cell and \<open>convergence\<close> on the cell that \<open>one_shot\<close>
  returns. In mode 5, when the fit of the bands returns, the same holds for the fitted
  cell, and since the fit writes only \<open>sim_alpha\<close> and \<open>sim_w\<close> the shifted values are
  those of the cell on entry.
\<close>

theorem history_shift_order:
  "shift_to_old x = x\<lparr>dt_e_old := dt_e x, dt_e := t_e x - t_e_old x, t_e_old := t_e x,
                        t_r_old := t_r x, lum_rad_old := lum_rad x\<rparr>
   \<and> ion_abundances env g x 3 =
       Some (case one_shot env (shift_to_old x) 3 of
               Inl e \<Rightarrow> Inl e
             | Inr r \<Rightarrow> Inr (finish_abundances env g (fst r, snd (convergence (snd r)))))
   \<and> (\<forall>y. fit_bands env g x [0..<nat (nxfreq g)] = Some y \<longrightarrow>
         ion_abundances env g x 5 =
           Some (case one_shot env (shift_to_old y) 5 of
                   Inl e \<Rightarrow> Inl e
                 | Inr r \<Rightarrow> Inr (finish_abundances env g (fst r, snd (convergence (snd r)))))
         \<and> t_e_old (shift_to_old y) = t_e x
         \<and> dt_e_old (shift_to_old y) = dt_e x
         \<and> dt_e (shift_to_old y) = t_e x - t_e_old x
         \<and> t_r_old (shift_to_old y) = t_r x
         \<and> lum_rad_old (shift_to_old y) = lum_rad x)"
  using ion_abundances_mode3 ion_abundances_mode5 fit_bands_history
  by (simp add: shift_to_old_eq)

text \<open>The law at the example cell, whose band is fitted before the shift.\<close>

theorem history_shift_order_witness:
  "fit_bands toy_physics toy_globals cell_hot [0..<nat (nxfreq toy_globals)] =
     Some (cell_hot\<lparr>sim_alpha := (sim_alpha cell_hot)(0 := Fin 0), sim_w := (sim_w cell_hot)(0 := Fin 0)\<rparr>)
   \<and> t_e_old (shift_to_old
        (cell_hot\<lparr>sim_alpha := (sim_alpha cell_hot)(0 := Fin 0), sim_w := (sim_w cell_hot)(0 := Fin 0)\<rparr>)) = 100
   \<and> dt_e (shift_to_old
        (cell_hot\<lparr>sim_alpha := (sim_alpha cell_hot)(0 := Fin 0), sim_w := (sim_w cell_hot)(0 := Fin 0)\<rparr>)) = 100"
  using history_shift_order [of cell_hot toy_physics toy_globals] fit_bands_hot
  by (simp add: cell_hot_def cell_zero_def)

lemma one_shot_status: "one_shot env x mode = Inr (r, y) \<Longrightarrow> r = 0"
  by (auto simp: one_shot_def one_shot_densities_def Let_def split: prod.splits if_splits)

lemma fst_finish [simp]: "fst (finish_abundances env g r) = fst r"
  by (simp add: finish_abundances_def)

lemma shift_one_shot_converge_status:
  "shift_one_shot_converge env x mode = Inr (r, y) \<Longrightarrow> r = 0"
  by (auto simp: shift_one_shot_converge_def split: sum.splits prod.splits dest: one_shot_status)

lemma map_sum_finish_status:
  "map_sum id (finish_abundances env g) s = Inr (r, y) \<Longrightarrow> \<exists>y'. s = Inr (r, y')"
  by (cases s) (auto simp: finish_abundances_def split: if_splits)

lemma ion_abundances_one_shot_status:
  assumes "mode = 3 \<or> mode = 5" "ion_abundances env g x mode = Some (Inr (r, y))"
  shows "r = 0"
proof -
  from assms obtain x' where "map_sum id (finish_abundances env g) (shift_one_shot_converge env x' mode) = Inr (r, y)"
    by (auto simp: ion_abundances_def split: option.splits)
  then obtain y' where "shift_one_shot_converge env x' mode = Inr (r, y')"
    using map_sum_finish_status by blast
  then show ?thesis by (rule shift_one_shot_converge_status)
qed

lemma ion_abundances_direct_status:
  "map_option (map_sum id fst) (ion_abundances env g x 0) = Some (Inr (fst (nebular_concentrations env x 2)))"
  "map_option (map_sum id fst) (ion_abundances env g x 1) = Some (Inr (fst (nebular_concentrations env x 1)))"
  "map_option (map_sum id fst) (ion_abundances env g x 2) = Some (Inr (fst (fix_concentrations env x 0)))"
  "map_option (map_sum id fst) (ion_abundances env g x 4) = Some (Inr (fst (nebular_concentrations env x 5)))"
  by (simp_all add: ion_abundances_def)

text \<open>
  C6 (as amended). In modes 0, 1, 2 and 4 \<open>ion_abundances\<close> returns the status of the
  abundance routine it called. In modes 3 and 5 it returns what \<open>one_shot\<close> returns,
  and \<open>one_shot\<close> returns 0 whenever it returns: the status of
  \<open>nebular_concentrations\<close> is used for a message only. No error of the fit or of the
  electron density changes the value returned.
\<close>

theorem ion_abundances_status:
  "map_option (map_sum id fst) (ion_abundances env g x 0) = Some (Inr (fst (nebular_concentrations env x 2)))
   \<and> map_option (map_sum id fst) (ion_abundances env g x 1) = Some (Inr (fst (nebular_concentrations env x 1)))
   \<and> map_option (map_sum id fst) (ion_abundances env g x 2) = Some (Inr (fst (fix_concentrations env x 0)))
   \<and> map_option (map_sum id fst) (ion_abundances env g x 4) = Some (Inr (fst (nebular_concentrations env x 5)))
   \<and> (\<forall>r y. ion_abundances env g x 3 = Some (Inr (r, y)) \<longrightarrow> r = 0)
   \<and> (\<forall>r y. ion_abundances env g x 5 = Some (Inr (r, y)) \<longrightarrow> r = 0)"
  using ion_abundances_one_shot_status [of 3 env g x] ion_abundances_one_shot_status [of 5 env g x]
  by (simp add: ion_abundances_direct_status)

lemma ion_abundances_toy_hot:
  "\<exists>y. ion_abundances toy_physics toy_globals cell_hot 3 = Some (Inr (0, y))"
proof -
  have t: "t_r (shift_to_old cell_hot) = 100" "t_e (shift_to_old cell_hot) = 100"
    by (simp_all add: shift_to_old_eq cell_hot_def cell_zero_def)
  have "t_r (snd (calc_te toy_physics (shift_to_old cell_hot) (0.7 * 100) (1.3 * 100))) = 100"
    by (simp only: t_r_calc_te_toy t)
  then have "\<exists>y. one_shot toy_physics (shift_to_old cell_hot) 3 = Inr (0, y)"
    by (simp add: one_shot_def one_shot_densities_def Let_def toy_fields case_prod_beta t)
  then show ?thesis
    by (auto simp: ion_abundances_mode3 finish_abundances_def toy_globals_def)
qed

text \<open>The law at the example cell in mode 3.\<close>

theorem ion_abundances_status_witness:
  "\<exists>r y. ion_abundances toy_physics toy_globals cell_hot 3 = Some (Inr (r, y)) \<and> r = 0"
  using ion_abundances_status [of toy_physics toy_globals cell_hot] ion_abundances_toy_hot
  by blast

text \<open>
  C6 as stated fails in mode 3: the abundance routine called by \<open>one_shot\<close> reports
  status 1 and \<open>ion_abundances\<close> returns 0.
\<close>

theorem ion_abundances_status_counterexample:
  "nebular_concentrations toy_physics = (\<lambda>x m. (1, x))
   \<and> map_option (map_sum id fst) (ion_abundances toy_physics toy_globals cell_hot 3) = Some (Inr 0)"
  using ion_abundances_toy_hot by (auto simp: toy_fields)

section \<open>Termination of the widening loop\<close>

lemma cd_add_0 [simp]: "cd_add x 0 = x"
  by (cases x) simp_all

lemma cd_add_add: "cd_add (cd_add x c) d = cd_add x (c + d)"
  by (cases x) simp_all

lemma widened_0 [simp]: "widened ab 0 = ab"
  by (simp add: widened_def)

lemma widened_Suc: "widened (widened ab 1) k = widened ab (Suc k)"
  by (simp add: widened_def cd_add_add)

lemma widened_Fin:
  "widened (cd_add (Fin alpha) (- 0.1), cd_add (Fin alpha) 0.1) k
     = (Fin (alpha - 0.1 - real k), Fin (alpha + 0.1 + real k))"
  by (simp add: widened_def)

lemma to_double_overflow: "DBL_OVERFLOW \<le> r \<Longrightarrow> to_double r = PInf"
  by (simp add: to_double_def)

lemma cpow_overflow_up:
  fixes c :: real
  assumes "1 < c"
  shows "\<exists>Y. \<forall>y\<ge>Y. cpow c y = PInf"
proof (intro exI allI impI)
  fix y :: real
  assume y: "log c DBL_OVERFLOW \<le> y"
  have "DBL_OVERFLOW = c powr (log c DBL_OVERFLOW)"
    using assms DBL_OVERFLOW_big by simp
  also have "\<dots> \<le> c powr y"
    using y assms by (intro powr_mono) simp_all
  finally show "cpow c y = PInf"
    using assms by (simp add: cpow_pos to_double_overflow)
qed

lemma cpow_overflow_down:
  fixes c :: real
  assumes "0 < c" "c < 1"
  shows "\<exists>Y. \<forall>y\<le>Y. cpow c y = PInf"
proof (intro exI allI impI)
  fix y :: real
  assume y: "y \<le> log c DBL_OVERFLOW"
  have "DBL_OVERFLOW = c powr (log c DBL_OVERFLOW)"
    using assms DBL_OVERFLOW_big by simp
  also have "\<dots> \<le> c powr y"
    using y assms by (intro powr_mono') simp_all
  finally show "cpow c y = PInf"
    using assms by (simp add: cpow_pos to_double_overflow)
qed

lemma cpow_zero_base: "y < 0 \<Longrightarrow> cpow 0 y = PInf"
  by (simp add: cpow_def)

lemma base_overflows:
  fixes c :: real
  assumes "0 \<le> c" "c \<noteq> 1"
  shows "(\<exists>Y. \<forall>y\<ge>Y. cpow c y = PInf) \<or> (\<exists>Y. \<forall>y\<le>Y. cpow c y = PInf)"
proof -
  consider "c = 0" | "0 < c" "c < 1" | "1 < c" using assms by linarith
  then show ?thesis
  proof cases
    case 1
    have "\<forall>y\<le>- 1. cpow c y = PInf" using 1 by (simp add: cpow_zero_base)
    then show ?thesis by blast
  next
    case 2 then show ?thesis using cpow_overflow_down by blast
  next
    case 3 then show ?thesis using cpow_overflow_up by blast
  qed
qed

lemma cd_quot_nonfinite: "\<not> is_finite u \<Longrightarrow> \<not> is_finite v \<Longrightarrow> cd_quot u v = NaN"
  by (cases u; cases v) simp_all

lemma cd_sub_PInf_left: "\<not> is_finite (cd_sub PInf X)"
  by (cases X) simp_all

lemma cd_sub_PInf_right: "\<not> is_finite (cd_sub X PInf)"
  by (cases X) simp_all

lemma sim_alpha_func_overflow:
  assumes "c = numax \<or> c = numin"
      and "cpow c (a + 1) = PInf" and "cpow c (a + 2) = PInf"
  shows "sim_alpha_func numin numax m (Fin a) = NaN"
proof -
  have "\<not> is_finite (cd_sub (cpow numax (a + 2)) (cpow numin (a + 2)))"
    using assms cd_sub_PInf_left cd_sub_PInf_right by metis
  moreover have "\<not> is_finite (cd_sub (cpow numax (a + 1)) (cpow numin (a + 1)))"
    using assms cd_sub_PInf_left cd_sub_PInf_right by metis
  ultimately show ?thesis by (simp add: cd_quot_nonfinite)
qed

lemma sim_alpha_func_NaN_power:
  assumes "c = numax \<or> c = numin" and "cpow c (a + 1) = NaN"
  shows "sim_alpha_func numin numax m (Fin a) = NaN"
  using assms by auto

lemma cpow_negative_base: "c < 0 \<Longrightarrow> y \<notin> \<int> \<Longrightarrow> cpow c y = NaN"
  by (auto simp: cpow_def)

lemma sim_alpha_func_ones: "sim_alpha_func 1 1 m (Fin a) = NaN"
  by (simp add: cpow_pos to_double_Fin)

lemma fifth_not_whole: "(x :: real) \<notin> \<int> \<or> x + 1 / 5 \<notin> \<int>"
proof (rule ccontr)
  assume "\<not> ?thesis"
  then have "x + 1 / 5 - x \<in> \<int>" by (intro Ints_diff) simp_all
  then obtain n :: int where "(1 :: real) / 5 = of_int n" by (auto elim: Ints_cases)
  then have "of_int (5 * n) = (1 :: real)" by simp
  then have "5 * n = 1" using of_int_eq_1_iff by blast
  then show False by presburger
qed

lemma nan_far_out:
  assumes c: "c = numax \<or> c = numin"
      and ov: "(\<exists>Y. \<forall>y\<ge>Y. cpow c y = PInf) \<or> (\<exists>Y. \<forall>y\<le>Y. cpow c y = PInf)"
  shows "\<exists>k. sim_alpha_func numin numax m (Fin (a - 0.1 - real k)) = NaN
            \<or> sim_alpha_func numin numax m (Fin (a + 0.1 + real k)) = NaN"
  using ov
proof
  assume "\<exists>Y. \<forall>y\<ge>Y. cpow c y = PInf"
  then obtain Y where Y: "\<And>y. Y \<le> y \<Longrightarrow> cpow c y = PInf" by blast
  obtain k :: nat where k: "Y - a < real k" using reals_Archimedean2 by blast
  have "cpow c (a + 0.1 + real k + 1) = PInf" "cpow c (a + 0.1 + real k + 2) = PInf"
    using k by (intro Y; linarith)+
  then have "sim_alpha_func numin numax m (Fin (a + 0.1 + real k)) = NaN"
    using c by (intro sim_alpha_func_overflow[of c])
  then show ?thesis by blast
next
  assume "\<exists>Y. \<forall>y\<le>Y. cpow c y = PInf"
  then obtain Y where Y: "\<And>y. y \<le> Y \<Longrightarrow> cpow c y = PInf" by blast
  obtain k :: nat where k: "a + 2 - Y < real k" using reals_Archimedean2 by blast
  have "cpow c (a - 0.1 - real k + 1) = PInf" "cpow c (a - 0.1 - real k + 2) = PInf"
    using k by (intro Y; linarith)+
  then have "sim_alpha_func numin numax m (Fin (a - 0.1 - real k)) = NaN"
    using c by (intro sim_alpha_func_overflow[of c])
  then show ?thesis by blast
qed

lemma nan_negative_base:
  assumes c: "c = numax \<or> c = numin" and neg: "c < 0"
  shows "\<exists>k. sim_alpha_func numin numax m (Fin (a - 0.1 - real k)) = NaN
            \<or> sim_alpha_func numin numax m (Fin (a + 0.1 + real k)) = NaN"
proof -
  have "a - 0.1 + 1 \<notin> \<int> \<or> a - 0.1 + 1 + 1 / 5 \<notin> \<int>" by (rule fifth_not_whole)
  moreover have "a - 0.1 + 1 + 1 / 5 = a + 0.1 + 1" by simp
  ultimately have "a - 0.1 + 1 \<notin> \<int> \<or> a + 0.1 + 1 \<notin> \<int>" by simp
  then have "cpow c (a - 0.1 + 1) = NaN \<or> cpow c (a + 0.1 + 1) = NaN"
    using neg cpow_negative_base by blast
  then have "sim_alpha_func numin numax m (Fin (a - 0.1)) = NaN
           \<or> sim_alpha_func numin numax m (Fin (a + 0.1)) = NaN"
    using c sim_alpha_func_NaN_power[of c numax numin] by blast
  then show ?thesis by (intro exI[of _ 0]) simp
qed

lemma nan_somewhere:
  "\<exists>k. sim_alpha_func numin numax m (Fin (a - 0.1 - real k)) = NaN
      \<or> sim_alpha_func numin numax m (Fin (a + 0.1 + real k)) = NaN"
proof -
  consider "numax < 0" | "numin < 0" | "0 \<le> numax" "numax \<noteq> 1" | "0 \<le> numin" "numin \<noteq> 1"
    | "numax = 1" "numin = 1" by linarith
  then show ?thesis
  proof cases
    case 1 then show ?thesis by (intro nan_negative_base[of numax]) simp_all
  next
    case 2 then show ?thesis by (intro nan_negative_base[of numin]) simp_all
  next
    case 3 then show ?thesis by (intro nan_far_out[of numax] base_overflows) simp_all
  next
    case 4 then show ?thesis by (intro nan_far_out[of numin] base_overflows) simp_all
  next
    case 5
    have "sim_alpha_func numin numax m (Fin (a - 0.1 - real 0)) = NaN"
      unfolding 5 by (rule sim_alpha_func_ones)
    then show ?thesis by blast
  qed
qed

lemma exit_exists:
  "\<exists>k. \<not> cd_prod_pos
          (sim_alpha_func numin numax m (fst (widened (cd_add alpha0 (- 0.1), cd_add alpha0 0.1) k)))
          (sim_alpha_func numin numax m (snd (widened (cd_add alpha0 (- 0.1), cd_add alpha0 0.1) k)))"
proof (cases alpha0)
  case (Fin a)
  from nan_somewhere[of numin numax m a] obtain k where
    "sim_alpha_func numin numax m (Fin (a - 0.1 - real k)) = NaN
      \<or> sim_alpha_func numin numax m (Fin (a + 0.1 + real k)) = NaN" by blast
  then show ?thesis unfolding Fin widened_Fin by (intro exI[of _ k]) auto
next
  case PInf then show ?thesis by (intro exI[of _ 0]) simp
next
  case MInf then show ?thesis by (intro exI[of _ 0]) simp
next
  case NaN then show ?thesis by (intro exI[of _ 0]) simp
qed

lemma widen_bracket_step:
  "widen_bracket g ab =
     (if cd_prod_pos (g (fst ab)) (g (snd ab)) then widen_bracket g (widened ab 1) else Some ab)"
  by (subst widen_bracket.simps) (simp add: widened_def)

lemma widen_bracket_complete:
  "\<not> cd_prod_pos (g (fst (widened ab k))) (g (snd (widened ab k))) \<Longrightarrow>
     \<exists>j\<le>k. widen_bracket g ab = Some (widened ab j)
            \<and> \<not> cd_prod_pos (g (fst (widened ab j))) (g (snd (widened ab j)))"
proof (induction k arbitrary: ab)
  case 0
  then have "widen_bracket g ab = Some ab" by (subst widen_bracket_step) simp
  with 0 show ?case by simp
next
  case (Suc k)
  show ?case
  proof (cases "cd_prod_pos (g (fst ab)) (g (snd ab))")
    case True
    have "\<not> cd_prod_pos (g (fst (widened (widened ab 1) k))) (g (snd (widened (widened ab 1) k)))"
      using Suc.prems unfolding widened_Suc .
    from Suc.IH[OF this] obtain j where j: "j \<le> k"
      "widen_bracket g (widened ab 1) = Some (widened (widened ab 1) j)"
      "\<not> cd_prod_pos (g (fst (widened (widened ab 1) j))) (g (snd (widened (widened ab 1) j)))"
      by blast
    have "widen_bracket g ab = Some (widened ab (Suc j))"
      using True j(2) by (subst widen_bracket_step) (simp only: widened_Suc if_True)
    with j show ?thesis unfolding widened_Suc by (intro exI[of _ "Suc j"]) simp
  next
    case False
    then have "widen_bracket g ab = Some ab" by (subst widen_bracket_step) simp
    with False show ?thesis by (intro exI[of _ 0]) simp
  qed
qed

lemma widen_bracket_returns:
  "\<exists>k. widen_bracket (sim_alpha_func numin numax m) (cd_add alpha0 (- 0.1), cd_add alpha0 0.1)
          = Some (widened (cd_add alpha0 (- 0.1), cd_add alpha0 0.1) k)
      \<and> \<not> cd_prod_pos
          (sim_alpha_func numin numax m (fst (widened (cd_add alpha0 (- 0.1), cd_add alpha0 0.1) k)))
          (sim_alpha_func numin numax m (snd (widened (cd_add alpha0 (- 0.1), cd_add alpha0 0.1) k)))"
proof -
  from exit_exists[of numin numax m alpha0] obtain k where
    "\<not> cd_prod_pos
          (sim_alpha_func numin numax m (fst (widened (cd_add alpha0 (- 0.1), cd_add alpha0 0.1) k)))
          (sim_alpha_func numin numax m (snd (widened (cd_add alpha0 (- 0.1), cd_add alpha0 0.1) k)))"
    by blast
  from widen_bracket_complete[OF this] show ?thesis by blast
qed

text \<open>
  An example where the mean frequency lies outside the band: on the band \<open>[1, 2]\<close> with
  mean frequency 0 and starting slope 0, the power \<open>pow(2, alphamax + 1)\<close> overflows at
  the 1023rd widening, where the quotient is an infinity by an infinity, and the loop has
  ended by then.
\<close>

lemma cpow_two_overflow:
  fixes y :: real
  assumes "1024 \<le> y"
  shows "cpow 2 y = PInf"
proof -
  have "DBL_OVERFLOW \<le> 2 ^ 1024" by (simp add: DBL_OVERFLOW_def)
  also have "\<dots> = (2 :: real) powr 1024" by simp
  also have "\<dots> \<le> 2 powr y" using assms by (intro powr_mono) simp_all
  finally show ?thesis by (simp add: cpow_pos to_double_overflow)
qed

lemma widen_bracket_mean_outside:
  "\<exists>j\<le>1023. widen_bracket (sim_alpha_func 1 2 0) (cd_add (Fin 0) (- 0.1), cd_add (Fin 0) 0.1)
            = Some (widened (cd_add (Fin 0) (- 0.1), cd_add (Fin 0) 0.1) j)"
proof -
  have "sim_alpha_func 1 2 0 (Fin (0 + 0.1 + real 1023)) = NaN"
    by (rule sim_alpha_func_overflow[of 2]) (simp_all add: cpow_two_overflow)
  then have "\<not> cd_prod_pos
      (sim_alpha_func 1 2 0 (fst (widened (cd_add (Fin 0) (- 0.1), cd_add (Fin 0) 0.1) 1023)))
      (sim_alpha_func 1 2 0 (snd (widened (cd_add (Fin 0) (- 0.1), cd_add (Fin 0) 0.1) 1023)))"
    unfolding widened_Fin by simp
  from widen_bracket_complete[OF this] show ?thesis by blast
qed



section \<open>Properties of the fit of one band\<close>

lemma fit_candidates_returns:
  "\<exists>alphatemp. fit_candidates env alpha0 numin numax m jband
      = Some (alphatemp, sim_w_func (jband * 4 * pi) 1 1 alphatemp numin numax)"
proof -
  from widen_bracket_returns[of numin numax m alpha0] obtain ab where
    "widen_bracket (sim_alpha_func numin numax m) (cd_add alpha0 (- 0.1), cd_add alpha0 0.1) = Some ab"
    by blast
  then show ?thesis by (simp add: fit_candidates_def case_prod_beta Let_def)
qed

lemma sim_alpha_band_inputs: "sim_alpha (fst (band_inputs g x b)) = sim_alpha x"
  by (simp add: band_inputs_def)



lemma fit_band_returns:
  assumes "band_inputs g x b = (x1, numin, numax, meanfreq, jband)"
  shows "\<exists>alphatemp sim_w_temp.
           fit_candidates env (sim_alpha x b) numin numax meanfreq jband = Some (alphatemp, sim_w_temp)
           \<and> sim_w_temp = sim_w_func (jband * 4 * pi) 1 1 alphatemp numin numax
           \<and> fit_band env g x b =
               Some (if is_finite sim_w_temp
                     then x1\<lparr>sim_alpha := (sim_alpha x1)(b := alphatemp),
                             sim_w := (sim_w x1)(b := sim_w_temp)\<rparr>
                     else x1)"
proof -
  have a: "sim_alpha x1 b = sim_alpha x b"
    using sim_alpha_band_inputs[of g x b] assms by simp
  from fit_candidates_returns[of env "sim_alpha x b" numin numax meanfreq jband]
  obtain alphatemp where
    c: "fit_candidates env (sim_alpha x b) numin numax meanfreq jband
          = Some (alphatemp, sim_w_func (jband * 4 * pi) 1 1 alphatemp numin numax)" by blast
  show ?thesis
    by (intro exI[of _ alphatemp] exI[of _ "sim_w_func (jband * 4 * pi) 1 1 alphatemp numin numax"])
       (simp add: fit_band_def assms a c sane_check_def)
qed





lemma fit_candidates_steep:
  "fit_candidates toy_physics (Fin (- 1.1)) 1 3 2 0 = Some (Fin (- 1), NaN)"
proof -
  have "widen_bracket (sim_alpha_func 1 3 2) (Fin (- 1.2), Fin (- 1)) = Some (Fin (- 1.2), Fin (- 1))"
    by (rule widen_bracket_stop) (simp only: g_at_m1 cd_prod_pos_NaN, simp)
  then show ?thesis
    by (simp add: fit_candidates_def toy_fields clamp_alpha_def sim_w_func_def cpow_pos
          to_double_Fin Let_def)
qed

lemma band_inputs_steep:
  "band_inputs toy_globals cell_steep 0 = (cell_steep\<lparr>sim_w := (sim_w cell_steep)(0 := Fin 0)\<rparr>, 1, 3, 2, 0)"
  by (simp add: band_inputs_def toy_globals_def cell_steep_def cell_hot_def cell_zero_def)

lemma fit_band_steep:
  "fit_band toy_physics toy_globals cell_steep 0 =
     Some (cell_steep\<lparr>sim_w := (sim_w cell_steep)(0 := Fin 0)\<rparr>)"
proof -
  have a: "sim_alpha cell_steep 0 = Fin (- 1.1)" by (simp add: cell_steep_def)
  show ?thesis
    by (simp add: fit_band_def band_inputs_steep a fit_candidates_steep sane_check_def)
qed

lemma fit_band_total: "\<exists>y. fit_band env g x b = Some y"
proof -
  obtain x1 numin numax meanfreq jband where
    "band_inputs g x b = (x1, numin, numax, meanfreq, jband)" by (metis prod_cases5)
  from fit_band_returns[OF this, of env] show ?thesis by blast
qed

lemma fit_bands_total: "\<exists>y. fit_bands env g x bs = Some y"
proof (induction bs arbitrary: x)
  case Nil
  show ?case by simp
next
  case (Cons b bs)
  obtain x' where "fit_band env g x b = Some x'" using fit_band_total by blast
  with Cons[of x'] show ?case by simp
qed

lemma ion_abundances_returns: "\<exists>r. ion_abundances env g x mode = Some r"
proof -
  obtain y where "fit_bands env g x [0..<nat (nxfreq g)] = Some y"
    using fit_bands_total by blast
  then show ?thesis by (simp add: ion_abundances_def)
qed






section \<open>Properties of the exchange of spectra\<close>

lemma foldl_store_agree:
  assumes "\<And>v'. (p, v') \<in> set ws \<Longrightarrow> v' = v"
      and "(p, v) \<in> set ws \<or> buf p = v"
  shows "foldl store buf ws p = v"
  using assms
proof (induction ws arbitrary: buf)
  case Nil
  then show ?case by simp
next
  case (Cons w ws)
  have "(p, v) \<in> set ws \<or> store buf w p = v"
  proof (cases "fst w = p")
    case True
    then have "(p, snd w) \<in> set (w # ws)" by (metis list.set_intros(1) prod.collapse)
    from Cons.prems(1)[OF this] True show ?thesis by (simp add: store_def)
  next
    case False
    with Cons.prems(2) show ?thesis by (auto simp: store_def)
  qed
  moreover have "\<And>v'. (p, v') \<in> set ws \<Longrightarrow> v' = v" using Cons.prems(1) by simp
  ultimately have "foldl store (store buf w) ws p = v" by (intro Cons.IH)
  then show ?case by simp
qed

lemma cell_index_bound:
  assumes "i < nwave" "j < nspec"
  shows "i * nspec + j < nwave * (nspec::nat)"
proof -
  have "i * nspec + j < i * nspec + nspec" using assms(2) by simp
  also have "\<dots> = (i + 1) * nspec" by simp
  also have "\<dots> \<le> nwave * nspec" using assms(1) by (intro mult_le_mono1) simp
  finally show ?thesis .
qed

lemma div_block: "r < N \<Longrightarrow> (r + k * N) div N = (k::nat)"
proof -
  assume r: "r < N"
  then have "N \<noteq> 0" by simp
  then have "(r + k * N) div N = k + r div N" by (rule div_mult_self1)
  with r show ?thesis by simp
qed

lemma cell_index_inj:
  assumes "i < nwave" "j < nspec" "i' < nwave" "j' < nspec"
      and "i * nspec + j + k * (nwave * nspec) = i' * nspec + j' + k' * (nwave * (nspec::nat))"
  shows "i = i' \<and> j = j' \<and> k = k'"
proof -
  let ?N = "nwave * nspec"
  have b: "i * nspec + j < ?N" "i' * nspec + j' < ?N"
    using assms(1-4) by (simp_all add: cell_index_bound)
  have "(i * nspec + j + k * ?N) div ?N = k" "(i' * nspec + j' + k' * ?N) div ?N = k'"
    using b by (simp_all only: div_block)
  with assms(5) have k: "k = k'" by metis
  with assms(5) have e: "i * nspec + j = i' * nspec + j'" by simp
  have "(j + i * nspec) div nspec = i" "(j' + i' * nspec) div nspec = i'"
    using assms(2,4) by (simp_all only: div_block)
  then have "(i * nspec + j) div nspec = i" "(i' * nspec + j') div nspec = i'"
    by (simp_all only: add.commute)
  with e have i: "i = i'" by metis
  with e have "j = j'" by simp
  with i k show ?thesis by simp
qed

lemma pack_stores_set:
  "(p, v) \<in> set (pack_stores np nspec nwave x i j) \<longleftrightarrow>
     (\<exists>k<4. p = i * nspec + j + k * (nwave * nspec) \<and> v = quantity k (x j) i / real_of_int np)"
proof
  assume "(p, v) \<in> set (pack_stores np nspec nwave x i j)"
  then consider
      "p = i * nspec + j + 0 * (nwave * nspec)" "v = quantity 0 (x j) i / real_of_int np"
    | "p = i * nspec + j + 1 * (nwave * nspec)" "v = quantity 1 (x j) i / real_of_int np"
    | "p = i * nspec + j + 2 * (nwave * nspec)" "v = quantity 2 (x j) i / real_of_int np"
    | "p = i * nspec + j + 3 * (nwave * nspec)" "v = quantity 3 (x j) i / real_of_int np"
    by (auto simp: pack_stores_def quantity_def)
  then show "\<exists>k<4. p = i * nspec + j + k * (nwave * nspec) \<and> v = quantity k (x j) i / real_of_int np"
  proof cases
    case 1 then show ?thesis by (intro exI[of _ 0]) simp
  next
    case 2 then show ?thesis by (intro exI[of _ 1]) simp
  next
    case 3 then show ?thesis by (intro exI[of _ 2]) simp
  next
    case 4 then show ?thesis by (intro exI[of _ 3]) simp
  qed
next
  assume "\<exists>k<4. p = i * nspec + j + k * (nwave * nspec) \<and> v = quantity k (x j) i / real_of_int np"
  then obtain k where k: "k < 4" "p = i * nspec + j + k * (nwave * nspec)"
     "v = quantity k (x j) i / real_of_int np" by blast
  from k(1) consider "k = 0" | "k = 1" | "k = 2" | "k = 3" by linarith
  then show "(p, v) \<in> set (pack_stores np nspec nwave x i j)"
    using k(2,3) by cases (simp_all add: pack_stores_def quantity_def)
qed

lemma all_stores_set:
  "(p, v) \<in> set (concat (map (\<lambda>i. concat (map (\<lambda>j. pack_stores np nspec nwave x i j) [0..<nspec]))
                       [0..<nwave]))
   \<longleftrightarrow> (\<exists>i<nwave. \<exists>j<nspec. \<exists>k<4. p = i * nspec + j + k * (nwave * nspec)
                                  \<and> v = quantity k (x j) i / real_of_int np)"
proof -
  have "(p, v) \<in> set (concat (map (\<lambda>i. concat (map (\<lambda>j. pack_stores np nspec nwave x i j) [0..<nspec]))
                       [0..<nwave]))
        \<longleftrightarrow> (\<exists>i<nwave. \<exists>j<nspec. (p, v) \<in> set (pack_stores np nspec nwave x i j))"
    by (simp add: Bex_def)
  then show ?thesis by (simp only: pack_stores_set)
qed

lemma pack_spectra_value:
  assumes "i < nwave" "j < nspec" "k < 4"
  shows "pack_spectra np nspec nwave x (i * nspec + j + k * (nwave * nspec))
           = quantity k (x j) i / real_of_int np"
  unfolding pack_spectra_def
proof (rule foldl_store_agree)
  fix v'
  assume "(i * nspec + j + k * (nwave * nspec), v')
          \<in> set (concat (map (\<lambda>i. concat (map (\<lambda>j. pack_stores np nspec nwave x i j) [0..<nspec]))
                       [0..<nwave]))"
  then obtain i' j' k' where b: "i' < nwave" "j' < nspec" "k' < 4"
     and e: "i * nspec + j + k * (nwave * nspec) = i' * nspec + j' + k' * (nwave * nspec)"
     and v: "v' = quantity k' (x j') i' / real_of_int np"
    unfolding all_stores_set by blast
  from cell_index_inj[OF assms(1,2) b(1,2) e] have "i = i'" "j = j'" "k = k'" by simp_all
  with v show "v' = quantity k (x j) i / real_of_int np" by simp
next
  have "(i * nspec + j + k * (nwave * nspec), quantity k (x j) i / real_of_int np)
          \<in> set (concat (map (\<lambda>i. concat (map (\<lambda>j. pack_stores np nspec nwave x i j) [0..<nspec]))
                       [0..<nwave]))"
    unfolding all_stores_set using assms by blast
  then show "(i * nspec + j + k * (nwave * nspec), quantity k (x j) i / real_of_int np)
          \<in> set (concat (map (\<lambda>i. concat (map (\<lambda>j. pack_stores np nspec nwave x i j) [0..<nspec]))
                       [0..<nwave]))
        \<or> (\<lambda>_. 0) (i * nspec + j + k * (nwave * nspec)) = quantity k (x j) i / real_of_int np"
    by (rule disjI1)
qed

lemma reduce_identical:
  assumes "0 < P" "i < nwave" "j < nspec" "k < 4"
  shows "reduce_bcast (4 * nspec * nwave)
           (map (pack_spectra (int P) nspec nwave) (replicate P x))
           (i * nspec + j + k * (nwave * nspec)) = quantity k (x j) i"
proof -
  have lt: "i * nspec + j + k * (nwave * nspec) < 4 * nspec * nwave"
  proof -
    define N where "N = nwave * nspec"
    have "i * nspec + j < N" unfolding N_def using assms(2,3) by (rule cell_index_bound)
    moreover have "k * N \<le> 3 * N"
      using assms(4) by (intro mult_le_mono1) simp
    ultimately have "i * nspec + j + k * N < 4 * N" by linarith
    moreover have "4 * N = 4 * nspec * nwave" by (simp add: N_def)
    ultimately show ?thesis unfolding N_def by simp
  qed
  have "sum_list (map (\<lambda>redhelper. redhelper (i * nspec + j + k * (nwave * nspec)))
            (map (pack_spectra (int P) nspec nwave) (replicate P x)))
        = real P * (quantity k (x j) i / real_of_int (int P))"
    by (simp add: sum_list_replicate pack_spectra_value[OF assms(2-4)])
  also have "\<dots> = quantity k (x j) i" using assms(1) by simp
  finally show ?thesis using lt by (simp add: reduce_bcast_def)
qed

lemma unpack_one_same:
  assumes "redhelper2 (i * nspec + j) = f (x j) i"
      and "redhelper2 (i * nspec + j + (nwave * nspec)) = lf (x j) i"
      and "redhelper2 (i * nspec + j + (2 * nwave * nspec)) = f_wind (x j) i"
      and "redhelper2 (i * nspec + j + (3 * nwave * nspec)) = lf_wind (x j) i"
  shows "unpack_one nspec nwave redhelper2 i x j = x"
  by (simp add: unpack_one_def assms)

lemma foldl_same:
  "(\<And>a. a \<in> set as \<Longrightarrow> step x a = x) \<Longrightarrow> foldl step x as = x"
  by (induction as) simp_all

lemma unpack_spectra_same:
  assumes "\<And>i j k. i < nwave \<Longrightarrow> j < nspec \<Longrightarrow> k < 4 \<Longrightarrow>
             redhelper2 (i * nspec + j + k * (nwave * nspec)) = quantity k (x j) i"
  shows "unpack_spectra nspec nwave redhelper2 x = x"
  unfolding unpack_spectra_def
proof (rule foldl_same)
  fix i assume "i \<in> set [0..<nwave]"
  then have i: "i < nwave" by simp
  show "foldl (unpack_one nspec nwave redhelper2 i) x [0..<nspec] = x"
  proof (rule foldl_same)
    fix j assume "j \<in> set [0..<nspec]"
    then have j: "j < nspec" by simp
    show "unpack_one nspec nwave redhelper2 i x j = x"
    proof (rule unpack_one_same)
      show "redhelper2 (i * nspec + j) = f (x j) i"
        using assms[OF i j, of 0] by (simp add: quantity_def)
      show "redhelper2 (i * nspec + j + (nwave * nspec)) = lf (x j) i"
        using assms[OF i j, of 1] by (simp add: quantity_def)
      show "redhelper2 (i * nspec + j + (2 * nwave * nspec)) = f_wind (x j) i"
        using assms[OF i j, of 2] by (simp add: quantity_def mult.assoc)
      show "redhelper2 (i * nspec + j + (3 * nwave * nspec)) = lf_wind (x j) i"
        using assms[OF i j, of 3] by (simp add: quantity_def mult.assoc)
    qed
  qed
qed

lemma gather_identical:
  assumes "0 < P"
  shows "gather_extracted_spectrum c (replicate P x) = replicate P x"
proof (cases "MPI_ON c")
  case False
  then show ?thesis by (simp add: gather_extracted_spectrum_def)
next
  case True
  have "unpack_spectra (nspec_of c) (NWAVE_MAX c)
          (reduce_bcast (4 * nspec_of c * NWAVE_MAX c)
             (map (pack_spectra (int P) (nspec_of c) (NWAVE_MAX c)) (replicate P x))) x = x"
    by (rule unpack_spectra_same) (rule reduce_identical[OF assms])
  then show ?thesis using True
    by (simp add: gather_extracted_spectrum_def Let_def)
qed

text \<open>
  C8. If all \<open>P\<close> ranks hold the same spectra, every rank holds these spectra again
  after \<open>gather_extracted_spectrum\<close>, so that exchanging twice gives what exchanging
  once gives. Each rank sends its arrays divided by \<open>P\<close>, the sum over the \<open>P\<close> ranks
  gives the arrays back, and no store into the send buffer overwrites another. The
  equality is exact for real numbers; the rounding of doubles is not modelled.
\<close>

theorem gather_extracted_spectrum_identical:
  assumes "0 < P"
  shows "gather_extracted_spectrum c (replicate P x) = replicate P x
         \<and> gather_extracted_spectrum c (gather_extracted_spectrum c (replicate P x))
             = gather_extracted_spectrum c (replicate P x)"
  using gather_identical[OF assms] by simp

text \<open>The law for three ranks holding the example spectra.\<close>

theorem gather_extracted_spectrum_identical_witness:
  "(0::nat) < 3
   \<and> gather_extracted_spectrum example_spec_globals (replicate 3 example_xxspec)
       = replicate 3 example_xxspec"
  using gather_extracted_spectrum_identical [of 3 example_spec_globals example_xxspec] by simp

end
